theory Spec2Isabelle
  imports Complex_Main "HOL-Library.Signed_Division"
begin

section \<open>The chord-progression pattern matcher (composables/useStreamAnalyzer.ts)\<close>

text \<open>
  JavaScript numbers are IEEE doubles.  Scale degrees, chord roots and chord qualities are
  integer-valued and are modelled as \<open>int\<close>.  Match counts are sums of at most four
  terms from \<open>{0, 0.5, 1}\<close> and confidences are such a sum divided by the pattern length
  4; all of these are dyadic rationals that a double represents exactly, so they are
  modelled as \<open>rat\<close> with exact arithmetic.
\<close>

text \<open>The \<open>{ root, quality }\<close> objects handed to the matcher.\<close>

record root_quality =
  rq_root :: int
  rq_quality :: int

text \<open>The \<open>{ degree, quality }\<close> objects built by the \<open>map\<close> in the matcher.\<close>

record degree_quality =
  dq_degree :: int
  dq_quality :: int

text \<open>\<open>interface ProgressionDef\<close>: an i18n key and a list of [degree, quality] pairs.\<close>

record ProgressionDef =
  pd_key :: string
  pd_pattern :: "(int \<times> int) list"

text \<open>\<open>interface ChordProgressionPattern\<close>, the value the matcher returns.\<close>

record ChordProgressionPattern =
  cpp_key :: string
  cpp_degrees :: string
  cpp_confidence :: rat

definition DEGREE_NAMES :: "string list" where
  "DEGREE_NAMES =
     [''I'', ''bII'', ''II'', ''bIII'', ''III'', ''IV'', ''bV'', ''V'', ''bVI'', ''VI'', ''bVII'', ''VII'']"

definition PROGRESSION_PATTERNS :: "ProgressionDef list" where
  "PROGRESSION_PATTERNS =
     [\<lparr>pd_key = ''royalRoad'', pd_pattern = [(0, 0), (7, 0), (9, 1), (5, 0)]\<rparr>,
      \<lparr>pd_key = ''komuro'', pd_pattern = [(9, 1), (5, 0), (7, 0), (0, 0)]\<rparr>,
      \<lparr>pd_key = ''canon'', pd_pattern = [(0, 0), (7, 0), (9, 1), (4, 1)]\<rparr>,
      \<lparr>pd_key = ''popPunk'', pd_pattern = [(0, 0), (7, 0), (5, 0), (9, 1)]\<rparr>,
      \<lparr>pd_key = ''fifties'', pd_pattern = [(0, 0), (9, 1), (5, 0), (7, 0)]\<rparr>,
      \<lparr>pd_key = ''sad'', pd_pattern = [(9, 1), (5, 0), (0, 0), (7, 0)]\<rparr>,
      \<lparr>pd_key = ''blues'', pd_pattern = [(0, 0), (5, 0), (0, 0), (7, 0)]\<rparr>]"

text \<open>
  \<open>chordToDegree\<close>: \<open>(chordRoot - keyRoot + 12) % 12\<close>.  JavaScript's \<open>%\<close> truncates
  towards zero (the result has the sign of the dividend), which is \<open>smod\<close> on \<open>int\<close>.
\<close>

definition chordToDegree :: "int \<Rightarrow> int \<Rightarrow> int" where
  "chordToDegree chordRoot keyRoot = (chordRoot - keyRoot + 12) smod 12"

text \<open>
  The body of the innermost loop: what one step adds to \<open>matches\<close>, given the expected
  [degree, quality] pair of the template and the actual entry of the window.
\<close>

definition stepCredit :: "int \<times> int \<Rightarrow> degree_quality \<Rightarrow> rat" where
  "stepCredit expected actual =
     (case expected of (expectedDegree, expectedQuality) \<Rightarrow>
        if dq_degree actual = expectedDegree then
          (let qualityMatch =
                 (dq_quality actual = expectedQuality
                  \<or> (expectedQuality \<le> 1 \<and> dq_quality actual \<le> 1))
           in if qualityMatch then 1 else 1 / 2)
        else 0)"

text \<open>
  The innermost loop \<open>for (let i = 0; i < patternLen; i++)\<close> with its accumulator
  \<open>matches\<close>.  The reads \<open>pattern[i]\<close> and \<open>degrees[start + i]\<close> are in range for every
  \<open>start\<close> the enclosing loop produces.
\<close>

definition countMatches :: "degree_quality list \<Rightarrow> (int \<times> int) list \<Rightarrow> nat \<Rightarrow> rat" where
  "countMatches degrees pattern start =
     foldl (\<lambda>matches i. matches + stepCredit (pattern ! i) (degrees ! (start + i)))
       0 [0..<length pattern]"

text \<open>\<open>confidence = matches / patternLen\<close> for one template at one slide offset.\<close>

definition windowConfidence :: "degree_quality list \<Rightarrow> ProgressionDef \<Rightarrow> nat \<Rightarrow> rat" where
  "windowConfidence degrees patternDef start =
     countMatches degrees (pd_pattern patternDef) start / of_nat (length (pd_pattern patternDef))"

text \<open>
  The conditional update of \<open>bestMatch\<close>:
  \<open>if (confidence >= 0.5 && (!bestMatch || confidence > bestMatch.confidence))\<close>.
\<close>

definition considerCandidate ::
    "(ProgressionDef \<times> rat) option \<Rightarrow> ProgressionDef \<Rightarrow> rat \<Rightarrow> (ProgressionDef \<times> rat) option" where
  "considerCandidate bestMatch patternDef confidence =
     (if 1 / 2 \<le> confidence
         \<and> (case bestMatch of None \<Rightarrow> True | Some b \<Rightarrow> snd b < confidence)
      then Some (patternDef, confidence) else bestMatch)"

text \<open>
  The slide loop \<open>for (let start = 0; start <= degrees.length - patternLen; start++)\<close>.
  Its offsets are \<open>0, ..., degrees.length - patternLen\<close>, none when the window is shorter
  than the template.
\<close>

definition slideOffsets :: "degree_quality list \<Rightarrow> ProgressionDef \<Rightarrow> nat list" where
  "slideOffsets degrees patternDef = [0..<Suc (length degrees) - length (pd_pattern patternDef)]"

definition slidePattern ::
    "degree_quality list \<Rightarrow> (ProgressionDef \<times> rat) option \<Rightarrow> ProgressionDef
       \<Rightarrow> (ProgressionDef \<times> rat) option" where
  "slidePattern degrees bestMatch patternDef =
     foldl (\<lambda>best start. considerCandidate best patternDef (windowConfidence degrees patternDef start))
       bestMatch (slideOffsets degrees patternDef)"

text \<open>The outer loop \<open>for (const patternDef of PROGRESSION_PATTERNS)\<close>.\<close>

definition findBestMatch :: "degree_quality list \<Rightarrow> (ProgressionDef \<times> rat) option" where
  "findBestMatch degrees = foldl (slidePattern degrees) None PROGRESSION_PATTERNS"

text \<open>\<open>String.prototype.toLowerCase\<close> on the ASCII strings of \<open>DEGREE_NAMES\<close>.\<close>

definition toLowerCase :: "string \<Rightarrow> string" where
  "toLowerCase s =
     map (\<lambda>c. let n = (of_char c :: nat) in if 65 \<le> n \<and> n \<le> 90 then char_of (n + 32) else c) s"

text \<open>\<open>Array.prototype.join\<close> with a separator.\<close>

fun join :: "string \<Rightarrow> string list \<Rightarrow> string" where
  "join sep [] = []"
| "join sep [x] = x"
| "join sep (x # y # ys) = x @ sep @ join sep (y # ys)"

text \<open>
  The degree string of the reported template.  Every degree in the table lies in 0..11,
  so \<open>DEGREE_NAMES[deg]\<close> is an in-range read.
\<close>

definition degreeStr :: "ProgressionDef \<Rightarrow> string" where
  "degreeStr patternDef =
     join ''-'' (map (\<lambda>(deg, qual).
                        let base = DEGREE_NAMES ! nat deg
                        in if qual = 1 then toLowerCase base @ ''m'' else base)
                   (pd_pattern patternDef))"

text \<open>\<open>barChords.slice(-8)\<close>: the last eight entries, or all of them when there are fewer.\<close>

definition sliceLast :: "nat \<Rightarrow> 'a list \<Rightarrow> 'a list" where
  "sliceLast n xs = drop (length xs - n) xs"

definition toDegrees :: "root_quality list \<Rightarrow> int \<Rightarrow> degree_quality list" where
  "toDegrees recentChords keyRoot =
     map (\<lambda>bc. \<lparr>dq_degree = chordToDegree (rq_root bc) keyRoot, dq_quality = rq_quality bc\<rparr>)
       recentChords"

text \<open>\<open>detectProgressionPattern\<close>; \<open>None\<close> is the \<open>null\<close> result.\<close>

definition detectProgressionPattern ::
    "root_quality list \<Rightarrow> int \<Rightarrow> ChordProgressionPattern option" where
  "detectProgressionPattern barChords keyRoot =
     (if length barChords < 4 then None
      else
        let recentChords = sliceLast 8 barChords;
            degrees = toDegrees recentChords keyRoot
        in case findBestMatch degrees of
             None \<Rightarrow> None
           | Some (patternDef, confidence) \<Rightarrow>
               Some \<lparr>cpp_key = pd_key patternDef,
                     cpp_degrees = degreeStr patternDef,
                     cpp_confidence = confidence\<rparr>)"

text \<open>
  Two devices for the proofs about the nested loops: the candidates in the order in which
  the two loops visit them (templates in table order, offsets ascending within one
  template), and one iteration of the flattened loop.
\<close>

definition candidates :: "degree_quality list \<Rightarrow> (ProgressionDef \<times> nat) list" where
  "candidates degrees =
     concat (map (\<lambda>patternDef. map (Pair patternDef) (slideOffsets degrees patternDef))
               PROGRESSION_PATTERNS)"

definition tryCandidate ::
    "degree_quality list \<Rightarrow> (ProgressionDef \<times> rat) option \<Rightarrow> ProgressionDef \<times> nat
       \<Rightarrow> (ProgressionDef \<times> rat) option" where
  "tryCandidate degrees best c =
     considerCandidate best (fst c) (windowConfidence degrees (fst c) (snd c))"

section \<open>The stream-analyzer composable: history arrays and the published estimate\<close>

text \<open>
  A \<open>Float32Array\<close> is modelled as the list of its elements.  The element values play no
  part in what is proved below; they are taken as \<open>rat\<close>, as are the other JavaScript
  numbers with a fractional part (times, confidences, tempo).  Integer-valued numbers (pitch
  classes, quality codes, indices, counts) are \<open>int\<close>.
\<close>

type_synonym Float32Array = "rat list"

text \<open>\<open>interface StreamConfig\<close> of the binding layer; an omitted optional field is \<open>None\<close>.\<close>

record StreamConfig =
  cfg_sampleRate :: int
  cfg_nFft :: "int option"
  cfg_hopLength :: "int option"
  cfg_nMels :: "int option"
  cfg_computeMel :: "bool option"
  cfg_computeChroma :: "bool option"
  cfg_computeOnset :: "bool option"
  cfg_emitEveryNFrames :: "int option"

text \<open>\<open>interface FrameBuffer\<close>: one batch of frames in structure-of-arrays layout.\<close>

record FrameBuffer =
  fb_nFrames :: int
  fb_timestamps :: Float32Array
  fb_mel :: Float32Array
  fb_chroma :: Float32Array
  fb_onsetStrength :: Float32Array
  fb_rmsEnergy :: Float32Array
  fb_spectralCentroid :: Float32Array
  fb_spectralFlatness :: Float32Array
  fb_chordRoot :: "int list"
  fb_chordQuality :: "int list"
  fb_chordConfidence :: Float32Array

record ChordChange =
  cc_root :: int
  cc_quality :: int
  cc_startTime :: rat
  cc_confidence :: rat

record BarChord =
  bc_barIndex :: int
  bc_root :: int
  bc_quality :: int
  bc_startTime :: rat
  bc_confidence :: rat

record PatternScore =
  ps_name :: string
  ps_score :: rat

text \<open>\<open>interface ProgressiveEstimate\<close>, as \<open>stats()\<close> of the binding layer returns it.\<close>

record ProgressiveEstimate =
  pe_bpm :: rat
  pe_bpmConfidence :: rat
  pe_bpmCandidateCount :: int
  pe_key :: int
  pe_keyMinor :: bool
  pe_keyConfidence :: rat
  pe_chordRoot :: int
  pe_chordQuality :: int
  pe_chordConfidence :: rat
  pe_chordProgression :: "ChordChange list"
  pe_barChordProgression :: "BarChord list"
  pe_currentBar :: int
  pe_barDuration :: rat
  pe_votedPattern :: "BarChord list"
  pe_patternLength :: int
  pe_detectedPatternName :: string
  pe_detectedPatternScore :: rat
  pe_allPatternScores :: "PatternScore list"
  pe_accumulatedSeconds :: rat
  pe_usedFrames :: int
  pe_updated :: bool

record BarChordInfo =
  bci_barIndex :: int
  bci_chord :: string
  bci_startTime :: rat
  bci_confidence :: rat

text \<open>\<open>interface StreamEstimate\<close>: the estimate the composable publishes.\<close>

record StreamEstimate =
  se_bpm :: rat
  se_bpmConfidence :: rat
  se_key :: string
  se_keyConfidence :: rat
  se_chord :: string
  se_chordConfidence :: rat
  se_barChordProgression :: "BarChordInfo list"
  se_votedPattern :: "string list"
  se_detectedPatternName :: string
  se_detectedPatternScore :: rat
  se_progressionPattern :: "ChordProgressionPattern option"
  se_currentBar :: int
  se_barDuration :: rat
  se_accumulatedSeconds :: rat

record StreamingData =
  sd_chroma :: Float32Array
  sd_rms :: Float32Array
  sd_mel :: Float32Array
  sd_spectralCentroid :: Float32Array
  sd_spectralFlatness :: Float32Array
  sd_onsetStrength :: Float32Array
  sd_timestamps :: Float32Array
  sd_nFrames :: int
  sd_nMels :: int
  sd_nChroma :: int

text \<open>
  The variables closed over by \<open>useStreamAnalyzer\<close> that \<open>accumulateFrames\<close>,
  \<open>updateEstimate\<close> and \<open>reset\<close> read or write: the two published refs, the seven history
  arrays and \<open>defaultConfig\<close>.  The native analyzer object, which \<open>reset\<close> also resets, is an
  external collaborator and keeps its state outside this record.
\<close>

record composable =
  estimate :: StreamEstimate
  streamingData :: StreamingData
  chromaHistory :: "Float32Array list"
  rmsHistory :: "Float32Array list"
  melHistory :: "Float32Array list"
  timestampHistory :: "Float32Array list"
  spectralCentroidHistory :: "Float32Array list"
  spectralFlatnessHistory :: "Float32Array list"
  onsetStrengthHistory :: "Float32Array list"
  defaultConfig :: StreamConfig

definition NOTE_NAMES :: "string list" where
  "NOTE_NAMES = [''C'', ''C#'', ''D'', ''D#'', ''E'', ''F'', ''F#'', ''G'', ''G#'', ''A'', ''A#'', ''B'']"

definition CHORD_QUALITY_NAMES :: "string list" where
  "CHORD_QUALITY_NAMES = ['''', ''m'', ''dim'', ''aug'', ''7'', ''M7'', ''m7'', ''sus2'', ''sus4'']"

text \<open>
  Reading \<open>xs[i]\<close> from a JavaScript array: \<open>undefined\<close> (\<open>None\<close>) outside the array.
\<close>

definition arrayGet :: "'a list \<Rightarrow> int \<Rightarrow> 'a option" where
  "arrayGet xs i = (if 0 \<le> i \<and> i < int (length xs) then Some (xs ! nat i) else None)"

text \<open>
  \<open>keyToName\<close>.  For a pitch class the read \<open>NOTE_NAMES[keyIndex % 12]\<close> is in range; where
  it is not (a negative index), JavaScript yields \<open>undefined\<close>, rendered here by the text
  that a template string prints for it.
\<close>

definition keyToName :: "int \<Rightarrow> bool \<Rightarrow> string" where
  "keyToName keyIndex isMinor =
     (let note = (case arrayGet NOTE_NAMES (keyIndex smod 12) of
                    None \<Rightarrow> ''undefined'' | Some n \<Rightarrow> n)
      in if isMinor then note @ ''m'' else note)"

text \<open>
  \<open>chordToName\<close>; \<open>CHORD_QUALITY_NAMES[quality] || ''\<close> is the empty suffix outside the
  table.
\<close>

definition chordToName :: "int \<Rightarrow> int \<Rightarrow> string" where
  "chordToName r q =
     (if r < 0 \<or> r > 11 then ''-''
      else
        let note = NOTE_NAMES ! nat r;
            suffix = (case arrayGet CHORD_QUALITY_NAMES q of None \<Rightarrow> '''' | Some sfx \<Rightarrow> sfx)
        in note @ suffix)"

definition barChordToInfo :: "BarChord \<Rightarrow> BarChordInfo" where
  "barChordToInfo bc =
     \<lparr>bci_barIndex = bc_barIndex bc,
      bci_chord = chordToName (bc_root bc) (bc_quality bc),
      bci_startTime = bc_startTime bc,
      bci_confidence = bc_confidence bc\<rparr>"

text \<open>\<open>Math.round\<close>: the nearest integer, a tie going up.\<close>

definition Math_round :: "rat \<Rightarrow> rat" where
  "Math_round x = of_int \<lfloor>x + 1 / 2\<rfloor>"

text \<open>The initial value of the \<open>estimate\<close> ref, which \<open>reset\<close> restores.\<close>

definition emptyEstimate :: StreamEstimate where
  "emptyEstimate =
     \<lparr>se_bpm = 0, se_bpmConfidence = 0, se_key = ''-'', se_keyConfidence = 0,
      se_chord = ''-'', se_chordConfidence = 0, se_barChordProgression = [],
      se_votedPattern = [], se_detectedPatternName = '''', se_detectedPatternScore = 0,
      se_progressionPattern = None, se_currentBar = - 1, se_barDuration = 0,
      se_accumulatedSeconds = 0\<rparr>"

text \<open>The initial value of the \<open>streamingData\<close> ref, for a given mel band count.\<close>

definition emptyStreamingData :: "int \<Rightarrow> StreamingData" where
  "emptyStreamingData n =
     \<lparr>sd_chroma = [], sd_rms = [], sd_mel = [], sd_spectralCentroid = [],
      sd_spectralFlatness = [], sd_onsetStrength = [], sd_timestamps = [],
      sd_nFrames = 0, sd_nMels = n, sd_nChroma = 12\<rparr>"

text \<open>\<open>a ?? b\<close> on an optional field.\<close>

definition orDefault :: "'a option \<Rightarrow> 'a \<Rightarrow> 'a" where
  "orDefault v d = (case v of None \<Rightarrow> d | Some x \<Rightarrow> x)"

text \<open>
  The state right after \<open>useStreamAnalyzer(options)\<close>: empty histories, the initial refs,
  and \<open>defaultConfig\<close>, the literal defaults overridden by the fields \<open>options\<close> provides.
\<close>

definition useStreamAnalyzer :: "StreamConfig \<Rightarrow> composable" where
  "useStreamAnalyzer options =
     \<lparr>estimate = emptyEstimate,
      streamingData = emptyStreamingData (orDefault (cfg_nMels options) 128),
      chromaHistory = [], rmsHistory = [], melHistory = [], timestampHistory = [],
      spectralCentroidHistory = [], spectralFlatnessHistory = [], onsetStrengthHistory = [],
      defaultConfig =
        \<lparr>cfg_sampleRate = cfg_sampleRate options,
         cfg_nFft = Some (orDefault (cfg_nFft options) 2048),
         cfg_hopLength = Some (orDefault (cfg_hopLength options) 512),
         cfg_nMels = Some (orDefault (cfg_nMels options) 128),
         cfg_computeMel = Some (orDefault (cfg_computeMel options) True),
         cfg_computeChroma = Some (orDefault (cfg_computeChroma options) True),
         cfg_computeOnset = Some (orDefault (cfg_computeOnset options) True),
         cfg_emitEveryNFrames = Some (orDefault (cfg_emitEveryNFrames options) 1)\<rparr>\<rparr>"

definition maxChunks :: nat where
  "maxChunks = 300"

text \<open>
  The eviction loop of \<open>accumulateFrames\<close>:
  \<open>while (chromaHistory.length > maxChunks) { chromaHistory.shift(); ... }\<close>.
  \<open>Array.prototype.shift\<close> removes the first element and does nothing on an empty array,
  which is \<open>tl\<close>.
\<close>

function limitHistory :: "composable \<Rightarrow> composable" where
  "limitHistory s =
     (if length (chromaHistory s) > maxChunks then
        limitHistory
          (s\<lparr>chromaHistory := tl (chromaHistory s),
             rmsHistory := tl (rmsHistory s),
             melHistory := tl (melHistory s),
             timestampHistory := tl (timestampHistory s),
             spectralCentroidHistory := tl (spectralCentroidHistory s),
             spectralFlatnessHistory := tl (spectralFlatnessHistory s),
             onsetStrengthHistory := tl (onsetStrengthHistory s)\<rparr>)
      else s)"
  by pat_completeness auto

termination limitHistory
  by (relation "measure (\<lambda>s. length (chromaHistory s))") (auto simp: maxChunks_def)

declare limitHistory.simps [simp del]

text \<open>
  \<open>accumulateFrames\<close>: nothing for an empty batch; otherwise one chunk is pushed on each of
  the seven arrays (\<open>new Float32Array(a)\<close> copies \<open>a\<close>) and the eviction loop runs.
\<close>

definition accumulateFrames :: "FrameBuffer \<Rightarrow> composable \<Rightarrow> composable" where
  "accumulateFrames frames s =
     (if fb_nFrames frames = 0 then s
      else
        limitHistory
          (s\<lparr>chromaHistory := chromaHistory s @ [fb_chroma frames],
             rmsHistory := rmsHistory s @ [fb_rmsEnergy frames],
             melHistory := melHistory s @ [fb_mel frames],
             timestampHistory := timestampHistory s @ [fb_timestamps frames],
             spectralCentroidHistory := spectralCentroidHistory s @ [fb_spectralCentroid frames],
             spectralFlatnessHistory := spectralFlatnessHistory s @ [fb_spectralFlatness frames],
             onsetStrengthHistory := onsetStrengthHistory s @ [fb_onsetStrength frames]\<rparr>))"

text \<open>
  \<open>updateEstimate\<close>.  On values of the declared types the fallbacks \<open>x || []\<close>, \<open>x || ''\<close>
  and \<open>x || 0\<close> return \<open>x\<close> (an array is truthy, and the fallback of an empty string or a
  zero is that same value).
\<close>

definition updateEstimate :: "ProgressiveEstimate \<Rightarrow> composable \<Rightarrow> composable" where
  "updateEstimate progressiveEstimate s =
     (if \<not> pe_updated progressiveEstimate then s
      else
        let barChords = pe_barChordProgression progressiveEstimate;
            keyRoot = pe_key progressiveEstimate;
            votedPatternFromCpp =
              map (\<lambda>bc. chordToName (bc_root bc) (bc_quality bc)) (pe_votedPattern progressiveEstimate);
            pattern =
              detectProgressionPattern
                (map (\<lambda>bc. \<lparr>rq_root = bc_root bc, rq_quality = bc_quality bc\<rparr>) barChords) keyRoot
        in s\<lparr>estimate :=
             \<lparr>se_bpm = Math_round (pe_bpm progressiveEstimate * 10) / 10,
              se_bpmConfidence = pe_bpmConfidence progressiveEstimate,
              se_key = (if pe_keyConfidence progressiveEstimate > 3 / 10
                        then keyToName (pe_key progressiveEstimate) (pe_keyMinor progressiveEstimate)
                        else ''-''),
              se_keyConfidence = pe_keyConfidence progressiveEstimate,
              se_chord = (if pe_chordConfidence progressiveEstimate > 3 / 10
                          then chordToName (pe_chordRoot progressiveEstimate)
                                 (pe_chordQuality progressiveEstimate)
                          else ''-''),
              se_chordConfidence = pe_chordConfidence progressiveEstimate,
              se_barChordProgression = map barChordToInfo barChords,
              se_votedPattern = votedPatternFromCpp,
              se_detectedPatternName = pe_detectedPatternName progressiveEstimate,
              se_detectedPatternScore = pe_detectedPatternScore progressiveEstimate,
              se_progressionPattern = pattern,
              se_currentBar = pe_currentBar progressiveEstimate,
              se_barDuration = pe_barDuration progressiveEstimate,
              se_accumulatedSeconds = pe_accumulatedSeconds progressiveEstimate\<rparr>\<rparr>)"

text \<open>
  \<open>reset\<close>: the seven arrays are emptied (\<open>length = 0\<close>) and the two refs get their initial
  values back.
\<close>

definition reset :: "composable \<Rightarrow> composable" where
  "reset s =
     s\<lparr>chromaHistory := [], rmsHistory := [], melHistory := [], timestampHistory := [],
       spectralCentroidHistory := [], spectralFlatnessHistory := [], onsetStrengthHistory := [],
       streamingData := emptyStreamingData (orDefault (cfg_nMels (defaultConfig s)) 128),
       estimate := emptyEstimate\<rparr>"

text \<open>
  The calls that change the history arrays, and a run of such calls from a given state.
\<close>

datatype history_call = AccumulateFrames FrameBuffer | Reset

fun applyCall :: "composable \<Rightarrow> history_call \<Rightarrow> composable" where
  "applyCall s (AccumulateFrames frames) = accumulateFrames frames s"
| "applyCall s Reset = reset s"

definition runCalls :: "composable \<Rightarrow> history_call list \<Rightarrow> composable" where
  "runCalls s calls = foldl applyCall s calls"

text \<open>The invariant of the history arrays: one common length, at most the cap.\<close>

definition historiesAligned :: "composable \<Rightarrow> bool" where
  "historiesAligned s \<longleftrightarrow>
     length (chromaHistory s) \<le> maxChunks
     \<and> length (rmsHistory s) = length (chromaHistory s)
     \<and> length (melHistory s) = length (chromaHistory s)
     \<and> length (timestampHistory s) = length (chromaHistory s)
     \<and> length (spectralCentroidHistory s) = length (chromaHistory s)
     \<and> length (spectralFlatnessHistory s) = length (chromaHistory s)
     \<and> length (onsetStrengthHistory s) = length (chromaHistory s)"

text \<open>Concrete inputs used in instances below: default options and one-frame batches.\<close>

definition exampleOptions :: StreamConfig where
  "exampleOptions =
     \<lparr>cfg_sampleRate = 44100, cfg_nFft = None, cfg_hopLength = None, cfg_nMels = Some 2,
      cfg_computeMel = None, cfg_computeChroma = None, cfg_computeOnset = None,
      cfg_emitEveryNFrames = None\<rparr>"

definition exampleFrames :: "rat \<Rightarrow> FrameBuffer" where
  "exampleFrames t =
     \<lparr>fb_nFrames = 1, fb_timestamps = [t], fb_mel = [1 / 2, 1 / 4],
      fb_chroma = [1, 0, 0, 0, 1, 0, 0, 1, 0, 0, 0, 0], fb_onsetStrength = [0],
      fb_rmsEnergy = [1 / 8], fb_spectralCentroid = [440], fb_spectralFlatness = [1 / 16],
      fb_chordRoot = [0], fb_chordQuality = [0], fb_chordConfidence = [3 / 4]\<rparr>"

definition exampleEstimate :: "bool \<Rightarrow> ProgressiveEstimate" where
  "exampleEstimate u =
     \<lparr>pe_bpm = 2401 / 20, pe_bpmConfidence = 4 / 5, pe_bpmCandidateCount = 3, pe_key = 0,
      pe_keyMinor = False, pe_keyConfidence = 7 / 10, pe_chordRoot = 9, pe_chordQuality = 1,
      pe_chordConfidence = 1 / 2, pe_chordProgression = [],
      pe_barChordProgression =
        [\<lparr>bc_barIndex = 0, bc_root = 0, bc_quality = 0, bc_startTime = 0, bc_confidence = 1\<rparr>,
         \<lparr>bc_barIndex = 1, bc_root = 7, bc_quality = 0, bc_startTime = 2, bc_confidence = 1\<rparr>,
         \<lparr>bc_barIndex = 2, bc_root = 9, bc_quality = 1, bc_startTime = 4, bc_confidence = 1\<rparr>,
         \<lparr>bc_barIndex = 3, bc_root = 5, bc_quality = 0, bc_startTime = 6, bc_confidence = 1\<rparr>],
      pe_currentBar = 4, pe_barDuration = 2, pe_votedPattern = [], pe_patternLength = 4,
      pe_detectedPatternName = ''royalRoad'', pe_detectedPatternScore = 1,
      pe_allPatternScores = [], pe_accumulatedSeconds = 8, pe_usedFrames = 689,
      pe_updated = u\<rparr>"

section \<open>The binding layer (wasm/index.js)\<close>

text \<open>
  JavaScript values that cross the binding layer.  \<open>Ref\<close> stands for a value whose content
  the layer never inspects (a typed array, a callback, an object of the native side).
\<close>

datatype jsval =
    Undefined
  | Null
  | Num rat
  | Bool bool
  | Str string
  | Ref nat
  | Arr "jsval list"
  | Obj "(string \<times> jsval) list"

text \<open>
  What can be thrown: an \<open>Error\<close> with its message, a \<open>TypeError\<close> of the JavaScript
  runtime, or an exception coming out of the native side.
\<close>

datatype js_error = Error string | TypeError | NativeException string

text \<open>
  The object handed out by the native constructor \<open>module.StreamAnalyzer\<close>.  Its content is
  opaque to the binding layer; the model keeps the eight constructor arguments in it.
\<close>

datatype native_analyzer = NativeAnalyzer int int int int bool bool bool int

text \<open>
  The loaded WASM module (the value of \<open>createModule(options)\<close>).  Its code is not part of
  the sources at hand, so it is a parameter: \<open>invoke m name args\<close> is the call
  \<open>module.name(args)\<close> of a native function, and \<open>newStreamAnalyzer m\<close> is the native
  constructor \<open>new module.StreamAnalyzer(...)\<close>.  Either may throw.
\<close>

datatype wasm_module =
  Module (invoke: "string \<Rightarrow> jsval list \<Rightarrow> js_error + jsval")
         (newStreamAnalyzer:
            "int \<Rightarrow> int \<Rightarrow> int \<Rightarrow> int \<Rightarrow> bool \<Rightarrow> bool \<Rightarrow> bool \<Rightarrow> int \<Rightarrow> js_error + native_analyzer")

text \<open>
  The module-level variables \<open>module\<close> (here \<open>module_var\<close>, the plain name being taken by
  a constant of the library) and \<open>initPromise\<close>.  A promise is identified by a number.  \<open>loadsStarted\<close> is a ghost counter of how often the body of the asynchronous
  loader (the import of \<open>sonare.js\<close> followed by \<open>createModule\<close>) has been entered; it is
  also the source of fresh promise identities.
\<close>

record module_state =
  module_var :: "wasm_module option"
  initPromise :: "nat option"
  loadsStarted :: nat

definition initialModuleState :: module_state where
  "initialModuleState = \<lparr>module_var = None, initPromise = None, loadsStarted = 0\<rparr>"

text \<open>
  What a call of the \<open>async\<close> function \<open>init\<close> hands back: the promise of a plain
  \<open>return\<close>, which is already fulfilled, or a promise that follows the in-flight promise
  named in \<open>return initPromise\<close> (an \<open>async\<close> function resolves its own promise with the
  returned one, so the caller awaits that very initialization).
\<close>

datatype init_result = Fulfilled | Follows nat

text \<open>
  \<open>init\<close>, up to the point where it returns.  JavaScript runs a function to completion
  before any other callback: the loader body starts inside the call and suspends at its
  first \<open>await\<close>, the assignment to \<open>initPromise\<close> follows at once, and only later, in a
  separate step, does the loader assign \<open>module\<close>.
\<close>

definition init :: "jsval \<Rightarrow> module_state \<Rightarrow> init_result \<times> module_state" where
  "init options st =
     (if module_var st \<noteq> None then (Fulfilled, st)
      else
        case initPromise st of
          Some p \<Rightarrow> (Follows p, st)
        | None \<Rightarrow>
            let p = loadsStarted st
            in (Follows p, st\<lparr>initPromise := Some p, loadsStarted := Suc (loadsStarted st)\<rparr>))"

text \<open>
  The continuation of the loader after its second \<open>await\<close>: \<open>module = ...\<close>.  It can only
  run for a load that has been started.
\<close>

definition loadCompletes :: "wasm_module \<Rightarrow> module_state \<Rightarrow> module_state" where
  "loadCompletes m st = (if initPromise st \<noteq> None then st\<lparr>module_var := Some m\<rparr> else st)"

definition isInitialized :: "module_state \<Rightarrow> bool" where
  "isInitialized st \<longleftrightarrow> module_var st \<noteq> None"

text \<open>
  What can happen to the module-level state, in any interleaving: a call of \<open>init\<close>, the
  loader finishing with a module, or the loader failing (its promise is rejected and no
  variable is assigned).
\<close>

datatype module_event = CallInit jsval | LoadSucceeds wasm_module | LoadFails

fun moduleStep :: "module_state \<Rightarrow> module_event \<Rightarrow> module_state" where
  "moduleStep st (CallInit options) = snd (init options st)"
| "moduleStep st (LoadSucceeds m) = loadCompletes m st"
| "moduleStep st LoadFails = st"

definition runEvents :: "module_state \<Rightarrow> module_event list \<Rightarrow> module_state" where
  "runEvents st evs = foldl moduleStep st evs"

text \<open>A parameter with a default value: the default applies when \<open>undefined\<close> is passed.\<close>

definition param :: "jsval \<Rightarrow> jsval \<Rightarrow> jsval" where
  "param v d = (if v = Undefined then d else v)"

text \<open>Sequencing of computations that may throw.\<close>

definition bindE :: "'e + 'a \<Rightarrow> ('a \<Rightarrow> 'e + 'b) \<Rightarrow> 'e + 'b" where
  "bindE x f = (case x of Inl e \<Rightarrow> Inl e | Inr v \<Rightarrow> f v)"

text \<open>
  The property read \<open>v.k\<close>: a \<open>TypeError\<close> on \<open>undefined\<close> and \<open>null\<close>, \<open>undefined\<close> for
  a property that is not there.
\<close>

fun getProp :: "jsval \<Rightarrow> string \<Rightarrow> js_error + jsval" where
  "getProp Undefined k = Inl TypeError"
| "getProp Null k = Inl TypeError"
| "getProp (Obj props) k = Inr (case map_of props k of None \<Rightarrow> Undefined | Some x \<Rightarrow> x)"
| "getProp v k = Inr Undefined"

text \<open>The fields \<open>k: v.k\<close> of an object literal, for the listed keys in order.\<close>

fun propList :: "jsval \<Rightarrow> string list \<Rightarrow> js_error + (string \<times> jsval) list" where
  "propList v [] = Inr []"
| "propList v (k # ks) =
     bindE (getProp v k) (\<lambda>x. bindE (propList v ks) (\<lambda>rest. Inr ((k, x) # rest)))"

definition copyProps :: "string list \<Rightarrow> jsval \<Rightarrow> js_error + jsval" where
  "copyProps ks v = bindE (propList v ks) (\<lambda>props. Inr (Obj props))"

fun mapE :: "('a \<Rightarrow> 'e + 'b) \<Rightarrow> 'a list \<Rightarrow> 'e + 'b list" where
  "mapE f [] = Inr []"
| "mapE f (x # xs) = bindE (f x) (\<lambda>y. bindE (mapE f xs) (\<lambda>ys. Inr (y # ys)))"

text \<open>\<open>v.map(f)\<close>: defined on arrays, a \<open>TypeError\<close> on anything else.\<close>

definition mapArray :: "(jsval \<Rightarrow> js_error + jsval) \<Rightarrow> jsval \<Rightarrow> js_error + jsval" where
  "mapArray f v = (case v of Arr xs \<Rightarrow> bindE (mapE f xs) (\<lambda>ys. Inr (Arr ys)) | _ \<Rightarrow> Inl TypeError)"

definition convertAnalysisResult :: "jsval \<Rightarrow> js_error + jsval" where
  "convertAnalysisResult wasm =
     bindE (propList wasm [''bpm'', ''bpmConfidence'']) (\<lambda>tempo.
     bindE (getProp wasm ''key'') (\<lambda>k.
     bindE (copyProps [''root'', ''mode'', ''confidence'', ''name'', ''shortName''] k) (\<lambda>key.
     bindE (propList wasm [''timeSignature'', ''beats'']) (\<lambda>meter.
     bindE (getProp wasm ''chords'') (\<lambda>cs.
     bindE (mapArray (copyProps [''root'', ''quality'', ''start'', ''end'', ''confidence'', ''name'']) cs)
       (\<lambda>chords.
     bindE (getProp wasm ''sections'') (\<lambda>ss.
     bindE (mapArray
              (copyProps [''type'', ''start'', ''end'', ''energyLevel'', ''confidence'', ''name'']) ss)
       (\<lambda>sections.
     bindE (propList wasm [''timbre'', ''dynamics'', ''rhythm'', ''form'']) (\<lambda>rest.
       Inr (Obj (tempo @ [(''key'', key)] @ meter
                 @ [(''chords'', chords), (''sections'', sections)] @ rest)))))))))))"

text \<open>
  The exported functions.  Each starts with the same guard,
  \<open>if (!module) throw new Error('Module not initialized. Call init() first.')\<close>, and then
  delegates to the native function of the same name.  None of them assigns \<open>module\<close> or
  \<open>initPromise\<close>; the state is returned as it was received.
\<close>

definition version :: "module_state \<Rightarrow> (js_error + jsval) \<times> module_state" where
  "version st =
     (case module_var st of
        None \<Rightarrow> (Inl (Error ''Module not initialized. Call init() first.''), st)
      | Some m \<Rightarrow>
          (invoke m ''version'' [], st))"

definition detectBpm ::
    "jsval \<Rightarrow> jsval
       \<Rightarrow> module_state \<Rightarrow> (js_error + jsval) \<times> module_state" where
  "detectBpm samples sampleRate st =
     (case module_var st of
        None \<Rightarrow> (Inl (Error ''Module not initialized. Call init() first.''), st)
      | Some m \<Rightarrow>
          (invoke m ''detectBpm'' [samples, sampleRate], st))"

definition detectKey ::
    "jsval \<Rightarrow> jsval
       \<Rightarrow> module_state \<Rightarrow> (js_error + jsval) \<times> module_state" where
  "detectKey samples sampleRate st =
     (case module_var st of
        None \<Rightarrow> (Inl (Error ''Module not initialized. Call init() first.''), st)
      | Some m \<Rightarrow>
          (bindE (invoke m ''detectKey'' [samples, sampleRate])
              (copyProps [''root'', ''mode'', ''confidence'', ''name'', ''shortName'']), st))"

definition detectOnsets ::
    "jsval \<Rightarrow> jsval
       \<Rightarrow> module_state \<Rightarrow> (js_error + jsval) \<times> module_state" where
  "detectOnsets samples sampleRate st =
     (case module_var st of
        None \<Rightarrow> (Inl (Error ''Module not initialized. Call init() first.''), st)
      | Some m \<Rightarrow>
          (invoke m ''detectOnsets'' [samples, sampleRate], st))"

definition detectBeats ::
    "jsval \<Rightarrow> jsval
       \<Rightarrow> module_state \<Rightarrow> (js_error + jsval) \<times> module_state" where
  "detectBeats samples sampleRate st =
     (case module_var st of
        None \<Rightarrow> (Inl (Error ''Module not initialized. Call init() first.''), st)
      | Some m \<Rightarrow>
          (invoke m ''detectBeats'' [samples, sampleRate], st))"

definition analyze ::
    "jsval \<Rightarrow> jsval
       \<Rightarrow> module_state \<Rightarrow> (js_error + jsval) \<times> module_state" where
  "analyze samples sampleRate st =
     (case module_var st of
        None \<Rightarrow> (Inl (Error ''Module not initialized. Call init() first.''), st)
      | Some m \<Rightarrow>
          (bindE (invoke m ''analyze'' [samples, sampleRate]) convertAnalysisResult, st))"

definition analyzeWithProgress ::
    "jsval \<Rightarrow> jsval \<Rightarrow> jsval
       \<Rightarrow> module_state \<Rightarrow> (js_error + jsval) \<times> module_state" where
  "analyzeWithProgress samples sampleRate onProgress st =
     (case module_var st of
        None \<Rightarrow> (Inl (Error ''Module not initialized. Call init() first.''), st)
      | Some m \<Rightarrow>
          (bindE (invoke m ''analyzeWithProgress''
              [samples, sampleRate, onProgress]) convertAnalysisResult, st))"

definition hpss ::
    "jsval \<Rightarrow> jsval \<Rightarrow> jsval \<Rightarrow> jsval
       \<Rightarrow> module_state \<Rightarrow> (js_error + jsval) \<times> module_state" where
  "hpss samples sampleRate kernelHarmonic kernelPercussive st =
     (case module_var st of
        None \<Rightarrow> (Inl (Error ''Module not initialized. Call init() first.''), st)
      | Some m \<Rightarrow>
          (invoke m ''hpss''
              [samples, sampleRate, param kernelHarmonic (Num 31),
               param kernelPercussive (Num 31)], st))"

definition harmonic ::
    "jsval \<Rightarrow> jsval
       \<Rightarrow> module_state \<Rightarrow> (js_error + jsval) \<times> module_state" where
  "harmonic samples sampleRate st =
     (case module_var st of
        None \<Rightarrow> (Inl (Error ''Module not initialized. Call init() first.''), st)
      | Some m \<Rightarrow>
          (invoke m ''harmonic'' [samples, sampleRate], st))"

definition percussive ::
    "jsval \<Rightarrow> jsval
       \<Rightarrow> module_state \<Rightarrow> (js_error + jsval) \<times> module_state" where
  "percussive samples sampleRate st =
     (case module_var st of
        None \<Rightarrow> (Inl (Error ''Module not initialized. Call init() first.''), st)
      | Some m \<Rightarrow>
          (invoke m ''percussive'' [samples, sampleRate], st))"

definition timeStretch ::
    "jsval \<Rightarrow> jsval \<Rightarrow> jsval
       \<Rightarrow> module_state \<Rightarrow> (js_error + jsval) \<times> module_state" where
  "timeStretch samples sampleRate rate st =
     (case module_var st of
        None \<Rightarrow> (Inl (Error ''Module not initialized. Call init() first.''), st)
      | Some m \<Rightarrow>
          (invoke m ''timeStretch'' [samples, sampleRate, rate], st))"

definition pitchShift ::
    "jsval \<Rightarrow> jsval \<Rightarrow> jsval
       \<Rightarrow> module_state \<Rightarrow> (js_error + jsval) \<times> module_state" where
  "pitchShift samples sampleRate semitones st =
     (case module_var st of
        None \<Rightarrow> (Inl (Error ''Module not initialized. Call init() first.''), st)
      | Some m \<Rightarrow>
          (invoke m ''pitchShift'' [samples, sampleRate, semitones], st))"

definition normalize_audio ::
    "jsval \<Rightarrow> jsval \<Rightarrow> jsval
       \<Rightarrow> module_state \<Rightarrow> (js_error + jsval) \<times> module_state" where
  "normalize_audio samples sampleRate targetDb st =
     (case module_var st of
        None \<Rightarrow> (Inl (Error ''Module not initialized. Call init() first.''), st)
      | Some m \<Rightarrow>
          (invoke m ''normalize'' [samples, sampleRate, param targetDb (Num 0)], st))"

definition trim ::
    "jsval \<Rightarrow> jsval \<Rightarrow> jsval
       \<Rightarrow> module_state \<Rightarrow> (js_error + jsval) \<times> module_state" where
  "trim samples sampleRate thresholdDb st =
     (case module_var st of
        None \<Rightarrow> (Inl (Error ''Module not initialized. Call init() first.''), st)
      | Some m \<Rightarrow>
          (invoke m ''trim'' [samples, sampleRate, param thresholdDb (Num (- 60))], st))"

definition stft ::
    "jsval \<Rightarrow> jsval \<Rightarrow> jsval \<Rightarrow> jsval
       \<Rightarrow> module_state \<Rightarrow> (js_error + jsval) \<times> module_state" where
  "stft samples sampleRate nFft hopLength st =
     (case module_var st of
        None \<Rightarrow> (Inl (Error ''Module not initialized. Call init() first.''), st)
      | Some m \<Rightarrow>
          (invoke m ''stft''
              [samples, sampleRate, param nFft (Num 2048), param hopLength (Num 512)], st))"

definition stftDb ::
    "jsval \<Rightarrow> jsval \<Rightarrow> jsval \<Rightarrow> jsval
       \<Rightarrow> module_state \<Rightarrow> (js_error + jsval) \<times> module_state" where
  "stftDb samples sampleRate nFft hopLength st =
     (case module_var st of
        None \<Rightarrow> (Inl (Error ''Module not initialized. Call init() first.''), st)
      | Some m \<Rightarrow>
          (invoke m ''stftDb''
              [samples, sampleRate, param nFft (Num 2048), param hopLength (Num 512)], st))"

definition melSpectrogram ::
    "jsval \<Rightarrow> jsval \<Rightarrow> jsval \<Rightarrow> jsval \<Rightarrow> jsval
       \<Rightarrow> module_state \<Rightarrow> (js_error + jsval) \<times> module_state" where
  "melSpectrogram samples sampleRate nFft hopLength nMels st =
     (case module_var st of
        None \<Rightarrow> (Inl (Error ''Module not initialized. Call init() first.''), st)
      | Some m \<Rightarrow>
          (invoke m ''melSpectrogram''
              [samples, sampleRate, param nFft (Num 2048), param hopLength (Num 512),
               param nMels (Num 128)], st))"

definition mfcc ::
    "jsval \<Rightarrow> jsval \<Rightarrow> jsval \<Rightarrow> jsval \<Rightarrow> jsval \<Rightarrow> jsval
       \<Rightarrow> module_state \<Rightarrow> (js_error + jsval) \<times> module_state" where
  "mfcc samples sampleRate nFft hopLength nMels nMfcc st =
     (case module_var st of
        None \<Rightarrow> (Inl (Error ''Module not initialized. Call init() first.''), st)
      | Some m \<Rightarrow>
          (invoke m ''mfcc''
              [samples, sampleRate, param nFft (Num 2048), param hopLength (Num 512),
               param nMels (Num 128), param nMfcc (Num 13)], st))"

definition chroma ::
    "jsval \<Rightarrow> jsval \<Rightarrow> jsval \<Rightarrow> jsval
       \<Rightarrow> module_state \<Rightarrow> (js_error + jsval) \<times> module_state" where
  "chroma samples sampleRate nFft hopLength st =
     (case module_var st of
        None \<Rightarrow> (Inl (Error ''Module not initialized. Call init() first.''), st)
      | Some m \<Rightarrow>
          (invoke m ''chroma''
              [samples, sampleRate, param nFft (Num 2048), param hopLength (Num 512)], st))"

definition spectralCentroid ::
    "jsval \<Rightarrow> jsval \<Rightarrow> jsval \<Rightarrow> jsval
       \<Rightarrow> module_state \<Rightarrow> (js_error + jsval) \<times> module_state" where
  "spectralCentroid samples sampleRate nFft hopLength st =
     (case module_var st of
        None \<Rightarrow> (Inl (Error ''Module not initialized. Call init() first.''), st)
      | Some m \<Rightarrow>
          (invoke m ''spectralCentroid''
              [samples, sampleRate, param nFft (Num 2048), param hopLength (Num 512)], st))"

definition spectralBandwidth ::
    "jsval \<Rightarrow> jsval \<Rightarrow> jsval \<Rightarrow> jsval
       \<Rightarrow> module_state \<Rightarrow> (js_error + jsval) \<times> module_state" where
  "spectralBandwidth samples sampleRate nFft hopLength st =
     (case module_var st of
        None \<Rightarrow> (Inl (Error ''Module not initialized. Call init() first.''), st)
      | Some m \<Rightarrow>
          (invoke m ''spectralBandwidth''
              [samples, sampleRate, param nFft (Num 2048), param hopLength (Num 512)], st))"

definition spectralRolloff ::
    "jsval \<Rightarrow> jsval \<Rightarrow> jsval \<Rightarrow> jsval \<Rightarrow> jsval
       \<Rightarrow> module_state \<Rightarrow> (js_error + jsval) \<times> module_state" where
  "spectralRolloff samples sampleRate nFft hopLength rollPercent st =
     (case module_var st of
        None \<Rightarrow> (Inl (Error ''Module not initialized. Call init() first.''), st)
      | Some m \<Rightarrow>
          (invoke m ''spectralRolloff''
              [samples, sampleRate, param nFft (Num 2048), param hopLength (Num 512),
               param rollPercent (Num (85 / 100))], st))"

definition spectralFlatness ::
    "jsval \<Rightarrow> jsval \<Rightarrow> jsval \<Rightarrow> jsval
       \<Rightarrow> module_state \<Rightarrow> (js_error + jsval) \<times> module_state" where
  "spectralFlatness samples sampleRate nFft hopLength st =
     (case module_var st of
        None \<Rightarrow> (Inl (Error ''Module not initialized. Call init() first.''), st)
      | Some m \<Rightarrow>
          (invoke m ''spectralFlatness''
              [samples, sampleRate, param nFft (Num 2048), param hopLength (Num 512)], st))"

definition zeroCrossingRate ::
    "jsval \<Rightarrow> jsval \<Rightarrow> jsval \<Rightarrow> jsval
       \<Rightarrow> module_state \<Rightarrow> (js_error + jsval) \<times> module_state" where
  "zeroCrossingRate samples sampleRate frameLength hopLength st =
     (case module_var st of
        None \<Rightarrow> (Inl (Error ''Module not initialized. Call init() first.''), st)
      | Some m \<Rightarrow>
          (invoke m ''zeroCrossingRate''
              [samples, sampleRate, param frameLength (Num 2048), param hopLength (Num 512)], st))"

definition rmsEnergy ::
    "jsval \<Rightarrow> jsval \<Rightarrow> jsval \<Rightarrow> jsval
       \<Rightarrow> module_state \<Rightarrow> (js_error + jsval) \<times> module_state" where
  "rmsEnergy samples sampleRate frameLength hopLength st =
     (case module_var st of
        None \<Rightarrow> (Inl (Error ''Module not initialized. Call init() first.''), st)
      | Some m \<Rightarrow>
          (invoke m ''rmsEnergy''
              [samples, sampleRate, param frameLength (Num 2048), param hopLength (Num 512)], st))"

definition pitchYin ::
    "jsval \<Rightarrow> jsval \<Rightarrow> jsval \<Rightarrow> jsval \<Rightarrow> jsval \<Rightarrow> jsval \<Rightarrow> jsval
       \<Rightarrow> module_state \<Rightarrow> (js_error + jsval) \<times> module_state" where
  "pitchYin samples sampleRate frameLength hopLength fmin fmax threshold st =
     (case module_var st of
        None \<Rightarrow> (Inl (Error ''Module not initialized. Call init() first.''), st)
      | Some m \<Rightarrow>
          (invoke m ''pitchYin''
              [samples, sampleRate, param frameLength (Num 2048), param hopLength (Num 512),
               param fmin (Num 65), param fmax (Num 2093), param threshold (Num (3 / 10))], st))"

definition pitchPyin ::
    "jsval \<Rightarrow> jsval \<Rightarrow> jsval \<Rightarrow> jsval \<Rightarrow> jsval \<Rightarrow> jsval \<Rightarrow> jsval
       \<Rightarrow> module_state \<Rightarrow> (js_error + jsval) \<times> module_state" where
  "pitchPyin samples sampleRate frameLength hopLength fmin fmax threshold st =
     (case module_var st of
        None \<Rightarrow> (Inl (Error ''Module not initialized. Call init() first.''), st)
      | Some m \<Rightarrow>
          (invoke m ''pitchPyin''
              [samples, sampleRate, param frameLength (Num 2048), param hopLength (Num 512),
               param fmin (Num 65), param fmax (Num 2093), param threshold (Num (3 / 10))], st))"

definition hzToMel ::
    "jsval
       \<Rightarrow> module_state \<Rightarrow> (js_error + jsval) \<times> module_state" where
  "hzToMel hz st =
     (case module_var st of
        None \<Rightarrow> (Inl (Error ''Module not initialized. Call init() first.''), st)
      | Some m \<Rightarrow>
          (invoke m ''hzToMel'' [hz], st))"

definition melToHz ::
    "jsval
       \<Rightarrow> module_state \<Rightarrow> (js_error + jsval) \<times> module_state" where
  "melToHz mel st =
     (case module_var st of
        None \<Rightarrow> (Inl (Error ''Module not initialized. Call init() first.''), st)
      | Some m \<Rightarrow>
          (invoke m ''melToHz'' [mel], st))"

definition hzToMidi ::
    "jsval
       \<Rightarrow> module_state \<Rightarrow> (js_error + jsval) \<times> module_state" where
  "hzToMidi hz st =
     (case module_var st of
        None \<Rightarrow> (Inl (Error ''Module not initialized. Call init() first.''), st)
      | Some m \<Rightarrow>
          (invoke m ''hzToMidi'' [hz], st))"

definition midiToHz ::
    "jsval
       \<Rightarrow> module_state \<Rightarrow> (js_error + jsval) \<times> module_state" where
  "midiToHz midi st =
     (case module_var st of
        None \<Rightarrow> (Inl (Error ''Module not initialized. Call init() first.''), st)
      | Some m \<Rightarrow>
          (invoke m ''midiToHz'' [midi], st))"

definition hzToNote ::
    "jsval
       \<Rightarrow> module_state \<Rightarrow> (js_error + jsval) \<times> module_state" where
  "hzToNote hz st =
     (case module_var st of
        None \<Rightarrow> (Inl (Error ''Module not initialized. Call init() first.''), st)
      | Some m \<Rightarrow>
          (invoke m ''hzToNote'' [hz], st))"

definition noteToHz ::
    "jsval
       \<Rightarrow> module_state \<Rightarrow> (js_error + jsval) \<times> module_state" where
  "noteToHz note st =
     (case module_var st of
        None \<Rightarrow> (Inl (Error ''Module not initialized. Call init() first.''), st)
      | Some m \<Rightarrow>
          (invoke m ''noteToHz'' [note], st))"

definition framesToTime ::
    "jsval \<Rightarrow> jsval \<Rightarrow> jsval
       \<Rightarrow> module_state \<Rightarrow> (js_error + jsval) \<times> module_state" where
  "framesToTime frames sr hopLength st =
     (case module_var st of
        None \<Rightarrow> (Inl (Error ''Module not initialized. Call init() first.''), st)
      | Some m \<Rightarrow>
          (invoke m ''framesToTime'' [frames, sr, hopLength], st))"

definition timeToFrames ::
    "jsval \<Rightarrow> jsval \<Rightarrow> jsval
       \<Rightarrow> module_state \<Rightarrow> (js_error + jsval) \<times> module_state" where
  "timeToFrames time sr hopLength st =
     (case module_var st of
        None \<Rightarrow> (Inl (Error ''Module not initialized. Call init() first.''), st)
      | Some m \<Rightarrow>
          (invoke m ''timeToFrames'' [time, sr, hopLength], st))"

definition resample ::
    "jsval \<Rightarrow> jsval \<Rightarrow> jsval
       \<Rightarrow> module_state \<Rightarrow> (js_error + jsval) \<times> module_state" where
  "resample samples srcSr targetSr st =
     (case module_var st of
        None \<Rightarrow> (Inl (Error ''Module not initialized. Call init() first.''), st)
      | Some m \<Rightarrow>
          (invoke m ''resample'' [samples, srcSr, targetSr], st))"

text \<open>
  The class \<open>StreamAnalyzer\<close>.  An instance has one field, \<open>analyzer\<close>, the native object;
  the configuration is not stored, and every method works on \<open>this.analyzer\<close> alone.
\<close>

record StreamAnalyzer =
  analyzer :: native_analyzer

text \<open>
  The constructor: the same guard, then the native constructor on \<open>config.sampleRate\<close> and
  on each optional field with its \<open>??\<close> fallback.
\<close>

definition StreamAnalyzer_constructor ::
    "StreamConfig \<Rightarrow> module_state \<Rightarrow> (js_error + StreamAnalyzer) \<times> module_state" where
  "StreamAnalyzer_constructor config st =
     (case module_var st of
        None \<Rightarrow> (Inl (Error ''Module not initialized. Call init() first.''), st)
      | Some m \<Rightarrow>
          (bindE (newStreamAnalyzer m (cfg_sampleRate config)
                    (orDefault (cfg_nFft config) 2048)
                    (orDefault (cfg_hopLength config) 512)
                    (orDefault (cfg_nMels config) 128)
                    (orDefault (cfg_computeMel config) True)
                    (orDefault (cfg_computeChroma config) True)
                    (orDefault (cfg_computeOnset config) True)
                    (orDefault (cfg_emitEveryNFrames config) 1))
             (\<lambda>native. Inr \<lparr>analyzer = native\<rparr>),
           st))"

text \<open>
  The documented configuration, in the words of the specification: \<open>sampleRate\<close> is
  required, and an omitted option takes its documented default, \<open>nFft=2048\<close>,
  \<open>hopLength=512\<close>, \<open>nMels=128\<close>, \<open>computeMel=true\<close>, \<open>computeChroma=true\<close>,
  \<open>computeOnset=true\<close>, \<open>emitEveryNFrames=1\<close>.
\<close>

record ResolvedConfig =
  rc_sampleRate :: int
  rc_nFft :: int
  rc_hopLength :: int
  rc_nMels :: int
  rc_computeMel :: bool
  rc_computeChroma :: bool
  rc_computeOnset :: bool
  rc_emitEveryNFrames :: int

definition documentedConfig :: "StreamConfig \<Rightarrow> ResolvedConfig" where
  "documentedConfig config =
     \<lparr>rc_sampleRate = cfg_sampleRate config,
      rc_nFft = (case cfg_nFft config of None \<Rightarrow> 2048 | Some v \<Rightarrow> v),
      rc_hopLength = (case cfg_hopLength config of None \<Rightarrow> 512 | Some v \<Rightarrow> v),
      rc_nMels = (case cfg_nMels config of None \<Rightarrow> 128 | Some v \<Rightarrow> v),
      rc_computeMel = (case cfg_computeMel config of None \<Rightarrow> True | Some v \<Rightarrow> v),
      rc_computeChroma = (case cfg_computeChroma config of None \<Rightarrow> True | Some v \<Rightarrow> v),
      rc_computeOnset = (case cfg_computeOnset config of None \<Rightarrow> True | Some v \<Rightarrow> v),
      rc_emitEveryNFrames = (case cfg_emitEveryNFrames config of None \<Rightarrow> 1 | Some v \<Rightarrow> v)\<rparr>"

text \<open>The native constructor of a module applied to a resolved configuration.\<close>

definition constructNative :: "wasm_module \<Rightarrow> ResolvedConfig \<Rightarrow> js_error + native_analyzer" where
  "constructNative m r =
     newStreamAnalyzer m (rc_sampleRate r) (rc_nFft r) (rc_hopLength r) (rc_nMels r)
       (rc_computeMel r) (rc_computeChroma r) (rc_computeOnset r) (rc_emitEveryNFrames r)"

text \<open>
  Modelled from the spec: the native constructor behind \<open>module.StreamAnalyzer\<close>, which
  belongs to the WASM build (\<open>sonare.js\<close>, \<open>sonare.wasm\<close>) and is not among the sources at
  hand.  The specification says: construction fails (rejects) if \<open>sampleRate \<le> 0\<close> or
  \<open>hopLength \<ge> nFft\<close> (the window would never advance) or \<open>hopLength \<le> 0\<close>.  Nothing is said
  about the exception thrown; it is taken to be a native exception.
\<close>

definition specNativeConstructor ::
    "int \<Rightarrow> int \<Rightarrow> int \<Rightarrow> int \<Rightarrow> bool \<Rightarrow> bool \<Rightarrow> bool \<Rightarrow> int \<Rightarrow> js_error + native_analyzer" where
  "specNativeConstructor sr fft hop mels cMel cChroma cOnset emitN =
     (if sr \<le> 0 \<or> hop \<ge> fft \<or> hop \<le> 0
      then Inl (NativeException ''invalid stream configuration'')
      else Inr (NativeAnalyzer sr fft hop mels cMel cChroma cOnset emitN))"

text \<open>
  Concrete inputs used in instances below: a module whose native functions all return
  \<open>undefined\<close> and whose constructor is the one above, and two configurations.
\<close>

definition exampleModule :: wasm_module where
  "exampleModule = Module (\<lambda>name args. Inr Undefined) specNativeConstructor"

definition sampleRateOnly :: StreamConfig where
  "sampleRateOnly =
     \<lparr>cfg_sampleRate = 48000, cfg_nFft = None, cfg_hopLength = None, cfg_nMels = None,
      cfg_computeMel = None, cfg_computeChroma = None, cfg_computeOnset = None,
      cfg_emitEveryNFrames = None\<rparr>"

definition hopTooLarge :: StreamConfig where
  "hopTooLarge =
     \<lparr>cfg_sampleRate = 48000, cfg_nFft = None, cfg_hopLength = Some 4096, cfg_nMels = None,
      cfg_computeMel = None, cfg_computeChroma = None, cfg_computeOnset = None,
      cfg_emitEveryNFrames = None\<rparr>"

section \<open>Properties of the pattern matcher\<close>

lemma slidePattern_flat:
  "slidePattern degrees best p = foldl (tryCandidate degrees) best (map (Pair p) (slideOffsets degrees p))"
  by (simp add: slidePattern_def foldl_map tryCandidate_def)

lemma foldl_slide_concat:
  "foldl (slidePattern degrees) best ps =
   foldl (tryCandidate degrees) best (concat (map (\<lambda>p. map (Pair p) (slideOffsets degrees p)) ps))"
  by (induction ps arbitrary: best) (simp_all add: slidePattern_flat)

lemma findBestMatch_flat:
  "findBestMatch degrees = foldl (tryCandidate degrees) None (candidates degrees)"
  by (simp add: findBestMatch_def candidates_def foldl_slide_concat)

lemma first_best_fold:
  "(case foldl (tryCandidate degrees) None cs of
      None \<Rightarrow> \<forall>j<length cs. windowConfidence degrees (fst (cs ! j)) (snd (cs ! j)) < 1 / 2
    | Some (p, v) \<Rightarrow>
        \<exists>i<length cs. fst (cs ! i) = p \<and> windowConfidence degrees p (snd (cs ! i)) = v \<and> 1 / 2 \<le> v
          \<and> (\<forall>j<length cs. windowConfidence degrees (fst (cs ! j)) (snd (cs ! j)) \<le> v)
          \<and> (\<forall>j<i. windowConfidence degrees (fst (cs ! j)) (snd (cs ! j)) < v))"
proof (induction cs rule: rev_induct)
  case Nil
  show ?case by simp
next
  case (snoc c cs)
  define w where "w = (\<lambda>x. windowConfidence degrees (fst x) (snd x))"
  have old: "(cs @ [c]) ! j = cs ! j" if "j < length cs" for j
    using that by (simp add: nth_append)
  have split: "j < length cs \<or> j = length cs" if "j < length (cs @ [c])" for j
    using that by auto
  show ?case
  proof (cases "foldl (tryCandidate degrees) None cs")
    case None
    with snoc have small: "w (cs ! j) < 1 / 2" if "j < length cs" for j
      using that by (simp add: w_def)
    show ?thesis
    proof (cases "1 / 2 \<le> w c")
      case True
      then have res: "foldl (tryCandidate degrees) None (cs @ [c]) = Some (fst c, w c)"
        using None by (simp add: tryCandidate_def considerCandidate_def w_def)
      have a: "w ((cs @ [c]) ! j) \<le> w c" if "j < length (cs @ [c])" for j
      proof -
        from split [OF that] show ?thesis
        proof
          assume "j < length cs"
          then show ?thesis using small [of j] True by (simp add: old)
        next
          assume "j = length cs"
          then show ?thesis by simp
        qed
      qed
      have b: "w ((cs @ [c]) ! j) < w c" if "j < length cs" for j
        using small [OF that] True that by (simp add: old)
      have "length cs < length (cs @ [c]) \<and> fst ((cs @ [c]) ! length cs) = fst c
          \<and> windowConfidence degrees (fst c) (snd ((cs @ [c]) ! length cs)) = w c \<and> 1 / 2 \<le> w c
          \<and> (\<forall>j<length (cs @ [c]). w ((cs @ [c]) ! j) \<le> w c)
          \<and> (\<forall>j<length cs. w ((cs @ [c]) ! j) < w c)"
        using a b True by (simp add: w_def)
      then show ?thesis
        unfolding res w_def by (simp only: option.case prod.case) blast
    next
      case False
      then have res: "foldl (tryCandidate degrees) None (cs @ [c]) = None"
        using None by (simp add: tryCandidate_def considerCandidate_def w_def)
      have "w ((cs @ [c]) ! j) < 1 / 2" if "j < length (cs @ [c])" for j
      proof -
        from split [OF that] show ?thesis
        proof
          assume "j < length cs"
          then show ?thesis using small [of j] by (simp add: old)
        next
          assume "j = length cs"
          then show ?thesis using False by simp
        qed
      qed
      then show ?thesis unfolding res w_def by (simp only: option.case) blast
    qed
  next
    case (Some b)
    obtain p v where b: "b = (p, v)" by (cases b)
    from snoc Some b obtain i where i: "i < length cs" "fst (cs ! i) = p"
      "windowConfidence degrees p (snd (cs ! i)) = v" "1 / 2 \<le> v"
      and le: "\<forall>j<length cs. w (cs ! j) \<le> v"
      and lt: "\<forall>j<i. w (cs ! j) < v"
      unfolding w_def by auto
    show ?thesis
    proof (cases "v < w c")
      case True
      then have res: "foldl (tryCandidate degrees) None (cs @ [c]) = Some (fst c, w c)"
        using Some b i(4) by (simp add: tryCandidate_def considerCandidate_def w_def)
      have a: "w ((cs @ [c]) ! j) \<le> w c" if "j < length (cs @ [c])" for j
      proof -
        from split [OF that] show ?thesis
        proof
          assume "j < length cs"
          then show ?thesis using le True by (simp add: old) (meson less_imp_le order_trans)
        next
          assume "j = length cs"
          then show ?thesis by simp
        qed
      qed
      have b: "w ((cs @ [c]) ! j) < w c" if "j < length cs" for j
        using le True that by (simp add: old) (meson le_less_trans)
      have "length cs < length (cs @ [c]) \<and> fst ((cs @ [c]) ! length cs) = fst c
          \<and> windowConfidence degrees (fst c) (snd ((cs @ [c]) ! length cs)) = w c \<and> 1 / 2 \<le> w c
          \<and> (\<forall>j<length (cs @ [c]). w ((cs @ [c]) ! j) \<le> w c)
          \<and> (\<forall>j<length cs. w ((cs @ [c]) ! j) < w c)"
        using a b True i(4) by (simp add: w_def)
      then show ?thesis
        unfolding res w_def by (simp only: option.case prod.case) blast
    next
      case False
      then have res: "foldl (tryCandidate degrees) None (cs @ [c]) = Some (p, v)"
        using Some b by (simp add: tryCandidate_def considerCandidate_def w_def)
      have a: "w ((cs @ [c]) ! j) \<le> v" if "j < length (cs @ [c])" for j
      proof -
        from split [OF that] show ?thesis
        proof
          assume "j < length cs"
          then show ?thesis using le by (simp add: old)
        next
          assume "j = length cs"
          then show ?thesis using False by simp
        qed
      qed
      have b: "w ((cs @ [c]) ! j) < v" if "j < i" for j
        using lt that i(1) by (simp add: old)
      have "i < length (cs @ [c]) \<and> fst ((cs @ [c]) ! i) = p
          \<and> windowConfidence degrees p (snd ((cs @ [c]) ! i)) = v \<and> 1 / 2 \<le> v
          \<and> (\<forall>j<length (cs @ [c]). w ((cs @ [c]) ! j) \<le> v)
          \<and> (\<forall>j<i. w ((cs @ [c]) ! j) < v)"
        using a b i by (simp add: old)
      then show ?thesis
        unfolding res w_def by (simp only: option.case prod.case) blast
    qed
  qed
qed


lemma concat_Pair_length:
  "length (concat (map (\<lambda>p. map (Pair p) [0..<n]) xs)) = length xs * n"
  by (induction xs) simp_all

lemma concat_Pair_nth:
  "i < length xs \<Longrightarrow> s < n \<Longrightarrow> concat (map (\<lambda>p. map (Pair p) [0..<n]) xs) ! (i * n + s) = (xs ! i, s)"
proof (induction xs arbitrary: i)
  case Nil
  then show ?case by simp
next
  case (Cons x xs)
  show ?case
  proof (cases i)
    case 0
    with Cons.prems show ?thesis by (simp add: nth_append)
  next
    case (Suc k)
    with Cons.prems have "k < length xs" by simp
    from Cons.IH [OF this Cons.prems(2)] Suc show ?thesis
      by (simp add: nth_append)
  qed
qed

lemma pattern_lengths: "p \<in> set PROGRESSION_PATTERNS \<Longrightarrow> length (pd_pattern p) = 4"
  by (auto simp: PROGRESSION_PATTERNS_def)

lemma length_PROGRESSION_PATTERNS: "length PROGRESSION_PATTERNS = 7"
  by (simp add: PROGRESSION_PATTERNS_def)

lemma candidates_uniform:
  "candidates degrees = concat (map (\<lambda>p. map (Pair p) [0..<length degrees - 3]) PROGRESSION_PATTERNS)"
  unfolding candidates_def
  by (rule arg_cong [where f = concat], rule map_cong [OF refl])
     (simp add: slideOffsets_def pattern_lengths)

lemma lex_index:
  fixes n :: nat
  assumes "s < n" "t < n"
  shows "(pb < pa \<or> (pb = pa \<and> t < s)) \<longleftrightarrow> pb * n + t < pa * n + s"
proof
  assume "pb < pa \<or> (pb = pa \<and> t < s)"
  then show "pb * n + t < pa * n + s"
  proof
    assume "pb < pa"
    then have "Suc pb \<le> pa" by simp
    then have "Suc pb * n \<le> pa * n" by (rule mult_le_mono1)
    with assms show ?thesis by simp
  next
    assume "pb = pa \<and> t < s"
    then show ?thesis by simp
  qed
next
  assume less: "pb * n + t < pa * n + s"
  show "pb < pa \<or> (pb = pa \<and> t < s)"
  proof (rule ccontr)
    assume "\<not> ?thesis"
    then have "pa < pb \<or> (pb = pa \<and> s \<le> t)" by auto
    then show False
    proof
      assume "pa < pb"
      then have "Suc pa \<le> pb" by simp
      then have "Suc pa * n \<le> pb * n" by (rule mult_le_mono1)
      with assms less show False by simp
    next
      assume "pb = pa \<and> s \<le> t"
      with less show False by simp
    qed
  qed
qed

lemma findBestMatch_cases:
  "(case findBestMatch degrees of
      None \<Rightarrow>
        \<forall>pb<7. \<forall>t<length degrees - 3.
          windowConfidence degrees (PROGRESSION_PATTERNS ! pb) t < 1 / 2
    | Some (p, v) \<Rightarrow>
        \<exists>pa<7. \<exists>s<length degrees - 3.
          p = PROGRESSION_PATTERNS ! pa \<and> v = windowConfidence degrees p s \<and> 1 / 2 \<le> v
          \<and> (\<forall>pb<7. \<forall>t<length degrees - 3.
                windowConfidence degrees (PROGRESSION_PATTERNS ! pb) t \<le> v
                \<and> (pb < pa \<or> (pb = pa \<and> t < s)
                     \<longrightarrow> windowConfidence degrees (PROGRESSION_PATTERNS ! pb) t < v)))"
proof -
  define n where "n = length degrees - 3"
  define cs where "cs = candidates degrees"
  define w where "w = (\<lambda>x. windowConfidence degrees (fst x) (snd x))"
  have len: "length cs = 7 * n"
    by (simp add: cs_def candidates_uniform concat_Pair_length length_PROGRESSION_PATTERNS n_def)
  have at: "cs ! (i * n + s) = (PROGRESSION_PATTERNS ! i, s)" if "i < 7" "s < n" for i s
    using that unfolding cs_def candidates_uniform n_def
    by (intro concat_Pair_nth) (simp_all add: length_PROGRESSION_PATTERNS)
  have idx: "i * n + s < length cs" if "i < 7" "s < n" for i s
  proof -
    from that have "Suc i \<le> 7" by simp
    then have "Suc i * n \<le> 7 * n" by (rule mult_le_mono1)
    then have "i * n + n \<le> length cs" by (simp add: len)
    with that show ?thesis by simp
  qed
  note fb = first_best_fold [where degrees = degrees and cs = cs]
  show ?thesis
  proof (cases "findBestMatch degrees")
    case None
    then have "foldl (tryCandidate degrees) None cs = None"
      by (simp add: findBestMatch_flat cs_def)
    with fb have small: "\<forall>j<length cs. w (cs ! j) < 1 / 2" by (simp add: w_def)
    have "windowConfidence degrees (PROGRESSION_PATTERNS ! pb) t < 1 / 2" if "pb < 7" "t < n" for pb t
      using small idx [OF that] at [OF that] by (auto simp: w_def)
    then show ?thesis unfolding None n_def by simp
  next
    case (Some b)
    obtain p v where b: "b = (p, v)" by (cases b)
    with Some have "foldl (tryCandidate degrees) None cs = Some (p, v)"
      by (simp add: findBestMatch_flat cs_def)
    with fb obtain k where k: "k < length cs" "fst (cs ! k) = p" "windowConfidence degrees p (snd (cs ! k)) = v"
      "1 / 2 \<le> v" and le: "\<forall>j<length cs. w (cs ! j) \<le> v" and lt: "\<forall>j<k. w (cs ! j) < v"
      unfolding w_def by auto
    from k(1) len have npos: "0 < n" by (cases n) simp_all
    define pa where "pa = k div n"
    define s where "s = k mod n"
    have s: "s < n" using npos by (simp add: s_def)
    have "k < 7 * n" using k(1) len by simp
    then have "k div n < 7" by (rule less_mult_imp_div_less)
    then have pa: "pa < 7" unfolding pa_def .
    have keq: "k = pa * n + s" by (simp add: pa_def s_def)
    from at [OF pa s] k(2,3) keq have p: "p = PROGRESSION_PATTERNS ! pa" and v: "v = windowConfidence degrees p s"
      by simp_all
    have all: "windowConfidence degrees (PROGRESSION_PATTERNS ! pb) t \<le> v
          \<and> (pb < pa \<or> (pb = pa \<and> t < s) \<longrightarrow> windowConfidence degrees (PROGRESSION_PATTERNS ! pb) t < v)"
      if "pb < 7" "t < n" for pb t
    proof
      from le idx [OF that] at [OF that]
      show "windowConfidence degrees (PROGRESSION_PATTERNS ! pb) t \<le> v" by (auto simp: w_def)
      show "pb < pa \<or> (pb = pa \<and> t < s) \<longrightarrow> windowConfidence degrees (PROGRESSION_PATTERNS ! pb) t < v"
      proof
        assume "pb < pa \<or> (pb = pa \<and> t < s)"
        then have "pb * n + t < k" unfolding keq using lex_index [OF s that(2)] by simp
        with lt at [OF that] show "windowConfidence degrees (PROGRESSION_PATTERNS ! pb) t < v"
          by (auto simp: w_def)
      qed
    qed
    have "pa < 7 \<and> s < n \<and> p = PROGRESSION_PATTERNS ! pa \<and> v = windowConfidence degrees p s \<and> 1 / 2 \<le> v
          \<and> (\<forall>pb<7. \<forall>t<n.
                windowConfidence degrees (PROGRESSION_PATTERNS ! pb) t \<le> v
                \<and> (pb < pa \<or> (pb = pa \<and> t < s)
                     \<longrightarrow> windowConfidence degrees (PROGRESSION_PATTERNS ! pb) t < v))"
      using pa s p v k(4) all by blast
    then show ?thesis unfolding Some b n_def by (simp only: option.case prod.case) blast
  qed
qed

lemma foldl_add_sum:
  fixes f :: "nat \<Rightarrow> rat"
  shows "foldl (\<lambda>m i. m + f i) a [0..<n] = a + sum f {..<n}"
  by (induction n arbitrary: a) (simp_all add: add.assoc)

lemma countMatches_sum:
  "countMatches degrees pattern start =
     (\<Sum>i<length pattern. stepCredit (pattern ! i) (degrees ! (start + i)))"
  by (simp add: countMatches_def foldl_add_sum)

lemma smod_nonneg_12: "0 \<le> a \<Longrightarrow> a smod 12 = (a::int) mod 12"
  by (cases "a = 0") (simp_all add: smod_int_alt_def)

lemma chordToDegree_shift:
  assumes "0 \<le> k" "k < 12" "0 \<le> x" "x < 12"
  shows "chordToDegree ((k + x) mod 12) k = x"
proof -
  have "0 \<le> (k + x) mod 12" by simp
  with assms have nonneg: "0 \<le> (k + x) mod 12 - k + 12" by linarith
  then have "((k + x) mod 12 - k + 12) smod 12 = ((k + x) mod 12 - k + 12) mod 12"
    by (rule smod_nonneg_12)
  also have "\<dots> = ((k + x) mod 12 - k) mod 12" by simp
  also have "\<dots> = (k + x - k) mod 12" by (simp only: mod_diff_left_eq)
  also have "\<dots> = x" using assms by simp
  finally show ?thesis by (simp add: chordToDegree_def)
qed

lemma length_sliceLast: "length (sliceLast n xs) = min n (length xs)"
  by (simp add: sliceLast_def)

lemma length_toDegrees: "length (toDegrees xs k) = length xs"
  by (simp add: toDegrees_def)

lemma detect_via_findBestMatch:
  "4 \<le> length barChords \<Longrightarrow>
   detectProgressionPattern barChords keyRoot =
     map_option (\<lambda>(patternDef, confidence).
         \<lparr>cpp_key = pd_key patternDef, cpp_degrees = degreeStr patternDef, cpp_confidence = confidence\<rparr>)
       (findBestMatch (toDegrees (sliceLast 8 barChords) keyRoot))"
  by (simp add: detectProgressionPattern_def Let_def split: option.splits)

lemma stepCredit_unfold:
  "stepCredit expected actual =
     (if dq_degree actual = fst expected
      then if dq_quality actual = snd expected \<or> (snd expected \<le> 1 \<and> dq_quality actual \<le> 1)
           then 1 else 1 / 2
      else 0)"
  by (cases expected) (simp add: stepCredit_def)

text \<open>
  Claim C1, as amended.  Whenever the matcher reports a result, its confidence is at least
  0.5, and it is the confidence of one template of the table at one slide offset inside the
  window of the most recent (at most eight) bar-chords: the sum of the template's per-step
  credits divided by the template's length.  A step whose degree differs from the expected
  one adds 0.  A step whose degree matches adds 1 when the actual quality equals the
  expected one, and also when both the expected and the actual quality are major or minor
  (quality codes 0 and 1): a major/minor mismatch gets full credit.  A step whose degree
  matches adds 0.5 only when the actual quality differs from the expected one and the two
  are not both major or minor.
\<close>

theorem step_scoring_and_threshold:
  assumes "detectProgressionPattern barChords keyRoot = Some r"
  shows "1 / 2 \<le> cpp_confidence r \<and>
    (\<exists>patternDef \<in> set PROGRESSION_PATTERNS. \<exists>start.
        start + length (pd_pattern patternDef) \<le> length (sliceLast 8 barChords)
      \<and> cpp_key r = pd_key patternDef
      \<and> cpp_confidence r =
          (\<Sum>i<length (pd_pattern patternDef).
              let expectedDegree = fst (pd_pattern patternDef ! i);
                  expectedQuality = snd (pd_pattern patternDef ! i);
                  actual = toDegrees (sliceLast 8 barChords) keyRoot ! (start + i)
              in if dq_degree actual = expectedDegree
                 then if dq_quality actual = expectedQuality
                         \<or> (expectedQuality \<le> 1 \<and> dq_quality actual \<le> 1)
                      then 1 else 1 / 2
                 else 0)
          / of_nat (length (pd_pattern patternDef)))"
proof -
  define degrees where "degrees = toDegrees (sliceLast 8 barChords) keyRoot"
  from assms have len: "4 \<le> length barChords"
    by (auto simp: detectProgressionPattern_def split: if_splits)
  then have dlen: "length degrees = min 8 (length barChords)"
    by (simp add: degrees_def length_toDegrees length_sliceLast)
  from assms len obtain p v where fb: "findBestMatch degrees = Some (p, v)"
    and r: "r = \<lparr>cpp_key = pd_key p, cpp_degrees = degreeStr p, cpp_confidence = v\<rparr>"
    by (auto simp: detect_via_findBestMatch degrees_def)
  from findBestMatch_cases [of degrees] fb obtain pa s where ps: "pa < 7" "s < length degrees - 3"
    "p = PROGRESSION_PATTERNS ! pa" "v = windowConfidence degrees p s" "1 / 2 \<le> v"
    by auto
  have mem: "p \<in> set PROGRESSION_PATTERNS"
    using ps(1,3) by (simp add: length_PROGRESSION_PATTERNS)
  then have plen: "length (pd_pattern p) = 4" by (rule pattern_lengths)
  have fits: "s + length (pd_pattern p) \<le> length (sliceLast 8 barChords)"
    using ps(2) plen dlen by (simp add: length_sliceLast min_def split: if_splits)
  have conf: "v = (\<Sum>i<length (pd_pattern p).
              let expectedDegree = fst (pd_pattern p ! i);
                  expectedQuality = snd (pd_pattern p ! i);
                  actual = degrees ! (s + i)
              in if dq_degree actual = expectedDegree
                 then if dq_quality actual = expectedQuality
                         \<or> (expectedQuality \<le> 1 \<and> dq_quality actual \<le> 1)
                      then 1 else 1 / 2
                 else 0)
          / of_nat (length (pd_pattern p))"
    unfolding ps(4) windowConfidence_def countMatches_sum
    by (simp only: stepCredit_unfold Let_def)
  show ?thesis
    using ps(5) mem fits conf unfolding r degrees_def by (simp del: sum.lessThan_Suc) blast
qed


text \<open>
  An instance: I, V, VI diminished, IV in the key of C.  The third step has the right degree
  and a quality outside major/minor, so the royalRoad template scores 1 + 1 + 0.5 + 1.
\<close>

theorem step_scoring_and_threshold_witness:
  "detectProgressionPattern
      [\<lparr>rq_root = 0, rq_quality = 0\<rparr>, \<lparr>rq_root = 7, rq_quality = 0\<rparr>,
       \<lparr>rq_root = 9, rq_quality = 2\<rparr>, \<lparr>rq_root = 5, rq_quality = 0\<rparr>] 0
     = Some \<lparr>cpp_key = ''royalRoad'', cpp_degrees = ''I-V-vim-IV'', cpp_confidence = 7 / 8\<rparr>
   \<and> (1 / 2 :: rat) \<le> 7 / 8"
proof -
  have h: "detectProgressionPattern
      [\<lparr>rq_root = 0, rq_quality = 0\<rparr>, \<lparr>rq_root = 7, rq_quality = 0\<rparr>,
       \<lparr>rq_root = 9, rq_quality = 2\<rparr>, \<lparr>rq_root = 5, rq_quality = 0\<rparr>] 0
     = Some \<lparr>cpp_key = ''royalRoad'', cpp_degrees = ''I-V-vim-IV'', cpp_confidence = 7 / 8\<rparr>"
    by code_simp
  from step_scoring_and_threshold [OF h] have "(1 / 2 :: rat) \<le> 7 / 8" by simp
  with h show ?thesis by (rule conjI)
qed

text \<open>
  Half credit for a major/minor mismatch is not what the matcher gives.  The template step VIm (degree 9, minor) against an actual
  A major chord in the key of C (degree 9, major) is a major/minor mismatch on a matching
  degree, and it adds 1, not 0.5; the progression C, G, A, F therefore matches royalRoad
  with confidence 1 and not with (1 + 1 + 0.5 + 1) / 4.
\<close>

theorem major_minor_mismatch_counterexample:
  "stepCredit (9, 1) \<lparr>dq_degree = 9, dq_quality = 0\<rparr> \<noteq> 1 / 2
   \<and> map_option cpp_confidence
        (detectProgressionPattern
           [\<lparr>rq_root = 0, rq_quality = 0\<rparr>, \<lparr>rq_root = 7, rq_quality = 0\<rparr>,
            \<lparr>rq_root = 9, rq_quality = 0\<rparr>, \<lparr>rq_root = 5, rq_quality = 0\<rparr>] 0)
       \<noteq> Some ((1 + 1 + 1 / 2 + 1) / 4)"
proof
  show "stepCredit (9, 1) \<lparr>dq_degree = 9, dq_quality = 0\<rparr> \<noteq> 1 / 2"
    by (simp add: stepCredit_def)
  have "detectProgressionPattern
           [\<lparr>rq_root = 0, rq_quality = 0\<rparr>, \<lparr>rq_root = 7, rq_quality = 0\<rparr>,
            \<lparr>rq_root = 9, rq_quality = 0\<rparr>, \<lparr>rq_root = 5, rq_quality = 0\<rparr>] 0
        = Some \<lparr>cpp_key = ''royalRoad'', cpp_degrees = ''I-V-vim-IV'', cpp_confidence = 1\<rparr>"
    by code_simp
  then show "map_option cpp_confidence
        (detectProgressionPattern
           [\<lparr>rq_root = 0, rq_quality = 0\<rparr>, \<lparr>rq_root = 7, rq_quality = 0\<rparr>,
            \<lparr>rq_root = 9, rq_quality = 0\<rparr>, \<lparr>rq_root = 5, rq_quality = 0\<rparr>] 0)
       \<noteq> Some ((1 + 1 + 1 / 2 + 1) / 4)"
    by simp
qed

lemma royalRoad_degrees_best:
  "findBestMatch [\<lparr>dq_degree = 0, dq_quality = 0\<rparr>, \<lparr>dq_degree = 7, dq_quality = 0\<rparr>,
                  \<lparr>dq_degree = 9, dq_quality = 1\<rparr>, \<lparr>dq_degree = 5, dq_quality = 0\<rparr>]
     = Some (\<lparr>pd_key = ''royalRoad'', pd_pattern = [(0, 0), (7, 0), (9, 1), (5, 0)]\<rparr>, 1)"
  by code_simp

lemma royalRoad_degreeStr:
  "degreeStr \<lparr>pd_key = ''royalRoad'', pd_pattern = [(0, 0), (7, 0), (9, 1), (5, 0)]\<rparr> = ''I-V-vim-IV''"
  by code_simp

text \<open>
  Claim C2.  For every key root \<open>k\<close> in 0..11, the four bar-chords with roots
  \<open>(k+0) mod 12\<close>, \<open>(k+7) mod 12\<close>, \<open>(k+9) mod 12\<close>, \<open>(k+5) mod 12\<close> and qualities major,
  major, minor, major give a non-null result whose pattern key is \<open>royalRoad\<close> and whose
  confidence is 1, hence at least 0.99.
\<close>

theorem royalRoad_roundtrip:
  assumes "0 \<le> k" "k < 12"
  shows "\<exists>r. detectProgressionPattern
            [\<lparr>rq_root = (k + 0) mod 12, rq_quality = 0\<rparr>, \<lparr>rq_root = (k + 7) mod 12, rq_quality = 0\<rparr>,
             \<lparr>rq_root = (k + 9) mod 12, rq_quality = 1\<rparr>, \<lparr>rq_root = (k + 5) mod 12, rq_quality = 0\<rparr>] k
          = Some r
        \<and> cpp_key r = ''royalRoad'' \<and> cpp_degrees r = ''I-V-vim-IV''
        \<and> cpp_confidence r = 1 \<and> 99 / 100 \<le> cpp_confidence r"
proof -
  have deg: "chordToDegree ((k + x) mod 12) k = x" if "0 \<le> x" "x < 12" for x
    using assms that by (rule chordToDegree_shift)
  have degrees: "toDegrees (sliceLast 8
            [\<lparr>rq_root = (k + 0) mod 12, rq_quality = 0\<rparr>, \<lparr>rq_root = (k + 7) mod 12, rq_quality = 0\<rparr>,
             \<lparr>rq_root = (k + 9) mod 12, rq_quality = 1\<rparr>, \<lparr>rq_root = (k + 5) mod 12, rq_quality = 0\<rparr>]) k
        = [\<lparr>dq_degree = 0, dq_quality = 0\<rparr>, \<lparr>dq_degree = 7, dq_quality = 0\<rparr>,
           \<lparr>dq_degree = 9, dq_quality = 1\<rparr>, \<lparr>dq_degree = 5, dq_quality = 0\<rparr>]"
    using deg [of 0] deg [of 7] deg [of 9] deg [of 5]
    by (simp add: toDegrees_def sliceLast_def)
  have "detectProgressionPattern
            [\<lparr>rq_root = (k + 0) mod 12, rq_quality = 0\<rparr>, \<lparr>rq_root = (k + 7) mod 12, rq_quality = 0\<rparr>,
             \<lparr>rq_root = (k + 9) mod 12, rq_quality = 1\<rparr>, \<lparr>rq_root = (k + 5) mod 12, rq_quality = 0\<rparr>] k
        = Some \<lparr>cpp_key = ''royalRoad'', cpp_degrees = ''I-V-vim-IV'', cpp_confidence = 1\<rparr>"
    unfolding detectProgressionPattern_def Let_def degrees royalRoad_degrees_best
    by (simp add: royalRoad_degreeStr)
  then show ?thesis by simp
qed

text \<open>An instance: the key of F (\<open>k = 5\<close>).\<close>

theorem royalRoad_roundtrip_witness:
  "(0::int) \<le> 5 \<and> (5::int) < 12
   \<and> (\<exists>r. detectProgressionPattern
            [\<lparr>rq_root = (5 + 0) mod 12, rq_quality = 0\<rparr>, \<lparr>rq_root = (5 + 7) mod 12, rq_quality = 0\<rparr>,
             \<lparr>rq_root = (5 + 9) mod 12, rq_quality = 1\<rparr>, \<lparr>rq_root = (5 + 5) mod 12, rq_quality = 0\<rparr>] 5
          = Some r
        \<and> cpp_key r = ''royalRoad'' \<and> cpp_degrees r = ''I-V-vim-IV''
        \<and> cpp_confidence r = 1 \<and> 99 / 100 \<le> cpp_confidence r)"
proof -
  have a: "(0::int) \<le> 5" and b: "(5::int) < 12" by simp_all
  from a b royalRoad_roundtrip [OF a b] show ?thesis by (intro conjI)
qed

text \<open>
  Claim C3.  For an input of at least four bar-chords, the candidates are the pairs of a
  template index \<open>pa < 7\<close> of the table and a slide offset \<open>s\<close> that fits the window of
  degrees.  The matcher returns null exactly when every candidate has confidence below 0.5.
  Otherwise it reports the key, the degree string and the confidence of a candidate whose
  confidence is at least 0.5, is greater than or equal to that of every candidate, and is
  strictly greater than that of every candidate visited earlier, that is, of every earlier
  template of the table at any offset and of the same template at every smaller offset.
\<close>

theorem best_candidate_reported:
  assumes "4 \<le> length barChords"
  shows "let degrees = toDegrees (sliceLast 8 barChords) keyRoot;
             offsets = length degrees - 3
         in case detectProgressionPattern barChords keyRoot of
              None \<Rightarrow>
                \<forall>pb<7. \<forall>t<offsets. windowConfidence degrees (PROGRESSION_PATTERNS ! pb) t < 1 / 2
            | Some r \<Rightarrow>
                \<exists>pa<7. \<exists>s<offsets.
                    cpp_key r = pd_key (PROGRESSION_PATTERNS ! pa)
                  \<and> cpp_degrees r = degreeStr (PROGRESSION_PATTERNS ! pa)
                  \<and> cpp_confidence r = windowConfidence degrees (PROGRESSION_PATTERNS ! pa) s
                  \<and> 1 / 2 \<le> cpp_confidence r
                  \<and> (\<forall>pb<7. \<forall>t<offsets.
                        windowConfidence degrees (PROGRESSION_PATTERNS ! pb) t \<le> cpp_confidence r
                        \<and> (pb < pa \<or> (pb = pa \<and> t < s)
                             \<longrightarrow> windowConfidence degrees (PROGRESSION_PATTERNS ! pb) t
                                   < cpp_confidence r))"
proof -
  define degrees where "degrees = toDegrees (sliceLast 8 barChords) keyRoot"
  note det = detect_via_findBestMatch [OF assms, of keyRoot, folded degrees_def]
  show ?thesis
  proof (cases "findBestMatch degrees")
    case None
    with findBestMatch_cases [of degrees] det show ?thesis
      by (simp add: degrees_def Let_def)
  next
    case (Some b)
    obtain p v where b: "b = (p, v)" by (cases b)
    from findBestMatch_cases [of degrees] Some b obtain pa s where
      ps: "pa < 7" "s < length degrees - 3" "p = PROGRESSION_PATTERNS ! pa"
          "v = windowConfidence degrees p s" "1 / 2 \<le> v"
      and best: "\<forall>pb<7. \<forall>t<length degrees - 3.
                windowConfidence degrees (PROGRESSION_PATTERNS ! pb) t \<le> v
                \<and> (pb < pa \<or> (pb = pa \<and> t < s)
                     \<longrightarrow> windowConfidence degrees (PROGRESSION_PATTERNS ! pb) t < v)"
      by auto
    have res: "detectProgressionPattern barChords keyRoot
        = Some \<lparr>cpp_key = pd_key p, cpp_degrees = degreeStr p, cpp_confidence = v\<rparr>"
      using det Some b by simp
    have "\<exists>pa<7. \<exists>s<length degrees - 3.
            pd_key p = pd_key (PROGRESSION_PATTERNS ! pa)
          \<and> degreeStr p = degreeStr (PROGRESSION_PATTERNS ! pa)
          \<and> v = windowConfidence degrees (PROGRESSION_PATTERNS ! pa) s
          \<and> 1 / 2 \<le> v
          \<and> (\<forall>pb<7. \<forall>t<length degrees - 3.
                windowConfidence degrees (PROGRESSION_PATTERNS ! pb) t \<le> v
                \<and> (pb < pa \<or> (pb = pa \<and> t < s)
                     \<longrightarrow> windowConfidence degrees (PROGRESSION_PATTERNS ! pb) t < v))"
      using ps best by blast
    then show ?thesis
      unfolding res Let_def degrees_def [symmetric] by simp
  qed
qed

text \<open>
  An instance: I, V, VIm, IIm in the key of C, where royalRoad and canon both reach 3/4.
\<close>

theorem best_candidate_reported_witness:
  "4 \<le> length [\<lparr>rq_root = 0, rq_quality = 0\<rparr>, \<lparr>rq_root = 7, rq_quality = 0\<rparr>,
                  \<lparr>rq_root = 9, rq_quality = 1\<rparr>, \<lparr>rq_root = 2, rq_quality = 1\<rparr>]
   \<and> (let degrees = toDegrees (sliceLast 8
                        [\<lparr>rq_root = 0, rq_quality = 0\<rparr>, \<lparr>rq_root = 7, rq_quality = 0\<rparr>,
                         \<lparr>rq_root = 9, rq_quality = 1\<rparr>, \<lparr>rq_root = 2, rq_quality = 1\<rparr>]) 0;
             offsets = length degrees - 3
         in case detectProgressionPattern
                   [\<lparr>rq_root = 0, rq_quality = 0\<rparr>, \<lparr>rq_root = 7, rq_quality = 0\<rparr>,
                    \<lparr>rq_root = 9, rq_quality = 1\<rparr>, \<lparr>rq_root = 2, rq_quality = 1\<rparr>] 0 of
              None \<Rightarrow>
                \<forall>pb<7. \<forall>t<offsets. windowConfidence degrees (PROGRESSION_PATTERNS ! pb) t < 1 / 2
            | Some r \<Rightarrow>
                \<exists>pa<7. \<exists>s<offsets.
                    cpp_key r = pd_key (PROGRESSION_PATTERNS ! pa)
                  \<and> cpp_degrees r = degreeStr (PROGRESSION_PATTERNS ! pa)
                  \<and> cpp_confidence r = windowConfidence degrees (PROGRESSION_PATTERNS ! pa) s
                  \<and> 1 / 2 \<le> cpp_confidence r
                  \<and> (\<forall>pb<7. \<forall>t<offsets.
                        windowConfidence degrees (PROGRESSION_PATTERNS ! pb) t \<le> cpp_confidence r
                        \<and> (pb < pa \<or> (pb = pa \<and> t < s)
                             \<longrightarrow> windowConfidence degrees (PROGRESSION_PATTERNS ! pb) t
                                   < cpp_confidence r)))"
proof -
  have h: "4 \<le> length [\<lparr>rq_root = 0, rq_quality = 0\<rparr>, \<lparr>rq_root = 7, rq_quality = 0\<rparr>,
                  \<lparr>rq_root = 9, rq_quality = 1\<rparr>, \<lparr>rq_root = 2, rq_quality = 1\<rparr>]"
    by simp
  from h best_candidate_reported [OF h, of 0] show ?thesis by (rule conjI)
qed

text \<open>
  Claim C10.  The matcher returns null on every input with fewer than four bar-chords, and
  two inputs whose last eight entries (\<open>slice(-8)\<close>) agree give the same result for the same
  key root.
\<close>

theorem short_input_and_last_eight:
  "(length barChords < 4 \<longrightarrow> detectProgressionPattern barChords keyRoot = None)
   \<and> (sliceLast 8 barChords = sliceLast 8 barChords'
        \<longrightarrow> detectProgressionPattern barChords keyRoot = detectProgressionPattern barChords' keyRoot)"
proof (intro conjI impI)
  show "detectProgressionPattern barChords keyRoot = None" if "length barChords < 4"
    using that by (simp add: detectProgressionPattern_def)
next
  assume eq: "sliceLast 8 barChords = sliceLast 8 barChords'"
  then have "min 8 (length barChords) = min 8 (length barChords')"
    by (metis length_sliceLast)
  then have "length barChords < 4 \<longleftrightarrow> length barChords' < 4" by (simp add: min_def split: if_splits)
  with eq show "detectProgressionPattern barChords keyRoot = detectProgressionPattern barChords' keyRoot"
    by (simp add: detectProgressionPattern_def)
qed

text \<open>
  An instance with ten and nine bar-chords that share their last eight entries, and a short
  input of three bar-chords.
\<close>

theorem short_input_and_last_eight_witness:
  "length [\<lparr>rq_root = 0, rq_quality = 0\<rparr>, \<lparr>rq_root = 7, rq_quality = 0\<rparr>, \<lparr>rq_root = 9, rq_quality = 1\<rparr>] < 4
   \<and> detectProgressionPattern
         [\<lparr>rq_root = 0, rq_quality = 0\<rparr>, \<lparr>rq_root = 7, rq_quality = 0\<rparr>, \<lparr>rq_root = 9, rq_quality = 1\<rparr>] 0
       = None
   \<and> sliceLast 8 (\<lparr>rq_root = 3, rq_quality = 0\<rparr> # \<lparr>rq_root = 4, rq_quality = 1\<rparr>
                      # replicate 8 \<lparr>rq_root = 0, rq_quality = 0\<rparr>)
       = sliceLast 8 (\<lparr>rq_root = 11, rq_quality = 2\<rparr> # replicate 8 \<lparr>rq_root = 0, rq_quality = 0\<rparr>)
   \<and> detectProgressionPattern
         (\<lparr>rq_root = 3, rq_quality = 0\<rparr> # \<lparr>rq_root = 4, rq_quality = 1\<rparr>
            # replicate 8 \<lparr>rq_root = 0, rq_quality = 0\<rparr>) 0
       = detectProgressionPattern
           (\<lparr>rq_root = 11, rq_quality = 2\<rparr> # replicate 8 \<lparr>rq_root = 0, rq_quality = 0\<rparr>) 0"
proof -
  have short: "length [\<lparr>rq_root = 0, rq_quality = 0\<rparr>, \<lparr>rq_root = 7, rq_quality = 0\<rparr>,
                       \<lparr>rq_root = 9, rq_quality = 1\<rparr>] < 4"
    by simp
  have same: "sliceLast 8 (\<lparr>rq_root = 3, rq_quality = 0\<rparr> # \<lparr>rq_root = 4, rq_quality = 1\<rparr>
                      # replicate 8 \<lparr>rq_root = 0, rq_quality = 0\<rparr>)
       = sliceLast 8 (\<lparr>rq_root = 11, rq_quality = 2\<rparr> # replicate 8 \<lparr>rq_root = 0, rq_quality = 0\<rparr>)"
    by (simp add: sliceLast_def)
  from short_input_and_last_eight
         [of "[\<lparr>rq_root = 0, rq_quality = 0\<rparr>, \<lparr>rq_root = 7, rq_quality = 0\<rparr>, \<lparr>rq_root = 9, rq_quality = 1\<rparr>]" 0]
       short
  have a: "detectProgressionPattern
         [\<lparr>rq_root = 0, rq_quality = 0\<rparr>, \<lparr>rq_root = 7, rq_quality = 0\<rparr>, \<lparr>rq_root = 9, rq_quality = 1\<rparr>] 0
       = None"
    by blast
  from short_input_and_last_eight
         [of "\<lparr>rq_root = 3, rq_quality = 0\<rparr> # \<lparr>rq_root = 4, rq_quality = 1\<rparr>
                # replicate 8 \<lparr>rq_root = 0, rq_quality = 0\<rparr>" 0
             "\<lparr>rq_root = 11, rq_quality = 2\<rparr> # replicate 8 \<lparr>rq_root = 0, rq_quality = 0\<rparr>"]
       same
  have b: "detectProgressionPattern
         (\<lparr>rq_root = 3, rq_quality = 0\<rparr> # \<lparr>rq_root = 4, rq_quality = 1\<rparr>
            # replicate 8 \<lparr>rq_root = 0, rq_quality = 0\<rparr>) 0
       = detectProgressionPattern
           (\<lparr>rq_root = 11, rq_quality = 2\<rparr> # replicate 8 \<lparr>rq_root = 0, rq_quality = 0\<rparr>) 0"
    by blast
  from short a same b show ?thesis by (intro conjI)
qed
section \<open>Properties of the history arrays and of the published estimate\<close>

lemma limitHistory_within:
  "length (chromaHistory s) \<le> maxChunks \<Longrightarrow> limitHistory s = s"
  by (subst limitHistory.simps) simp

lemma limitHistory_over:
  "length (chromaHistory s) > maxChunks \<Longrightarrow>
   limitHistory s = limitHistory
          (s\<lparr>chromaHistory := tl (chromaHistory s),
             rmsHistory := tl (rmsHistory s),
             melHistory := tl (melHistory s),
             timestampHistory := tl (timestampHistory s),
             spectralCentroidHistory := tl (spectralCentroidHistory s),
             spectralFlatnessHistory := tl (spectralFlatnessHistory s),
             onsetStrengthHistory := tl (onsetStrengthHistory s)\<rparr>)"
  by (subst limitHistory.simps) simp

lemma accumulate_empty_batch:
  "fb_nFrames frames = 0 \<Longrightarrow> accumulateFrames frames s = s"
  by (simp add: accumulateFrames_def)

lemma accumulate_below_cap:
  assumes "fb_nFrames frames \<noteq> 0" "length (chromaHistory s) < maxChunks"
  shows "accumulateFrames frames s =
          s\<lparr>chromaHistory := chromaHistory s @ [fb_chroma frames],
             rmsHistory := rmsHistory s @ [fb_rmsEnergy frames],
             melHistory := melHistory s @ [fb_mel frames],
             timestampHistory := timestampHistory s @ [fb_timestamps frames],
             spectralCentroidHistory := spectralCentroidHistory s @ [fb_spectralCentroid frames],
             spectralFlatnessHistory := spectralFlatnessHistory s @ [fb_spectralFlatness frames],
             onsetStrengthHistory := onsetStrengthHistory s @ [fb_onsetStrength frames]\<rparr>"
  using assms by (simp add: accumulateFrames_def limitHistory_within)

lemma accumulate_at_cap:
  assumes "fb_nFrames frames \<noteq> 0" "length (chromaHistory s) = maxChunks"
  shows "accumulateFrames frames s =
          s\<lparr>chromaHistory := tl (chromaHistory s @ [fb_chroma frames]),
             rmsHistory := tl (rmsHistory s @ [fb_rmsEnergy frames]),
             melHistory := tl (melHistory s @ [fb_mel frames]),
             timestampHistory := tl (timestampHistory s @ [fb_timestamps frames]),
             spectralCentroidHistory := tl (spectralCentroidHistory s @ [fb_spectralCentroid frames]),
             spectralFlatnessHistory := tl (spectralFlatnessHistory s @ [fb_spectralFlatness frames]),
             onsetStrengthHistory := tl (onsetStrengthHistory s @ [fb_onsetStrength frames])\<rparr>"
  using assms by (simp add: accumulateFrames_def limitHistory_over limitHistory_within)

lemma tl_snoc: "xs \<noteq> [] \<Longrightarrow> tl (xs @ [x]) = tl xs @ [x]"
  by (cases xs) simp_all

lemma aligned_accumulate:
  assumes "historiesAligned s"
  shows "historiesAligned (accumulateFrames frames s)"
proof (cases "fb_nFrames frames = 0")
  case True
  with assms show ?thesis by (simp add: accumulate_empty_batch)
next
  case False
  show ?thesis
  proof (cases "length (chromaHistory s) < maxChunks")
    case True
    with assms show ?thesis
      unfolding accumulate_below_cap [OF False True] by (simp add: historiesAligned_def)
  next
    case no: False
    with assms have cap: "length (chromaHistory s) = maxChunks" by (simp add: historiesAligned_def)
    with assms show ?thesis
      unfolding accumulate_at_cap [OF False cap] by (simp add: historiesAligned_def)
  qed
qed

lemma aligned_reset: "historiesAligned (reset s)"
  by (simp add: reset_def historiesAligned_def)

lemma aligned_initial: "historiesAligned (useStreamAnalyzer options)"
  by (simp add: useStreamAnalyzer_def historiesAligned_def)

lemma aligned_applyCall: "historiesAligned s \<Longrightarrow> historiesAligned (applyCall s c)"
  by (cases c) (simp_all add: aligned_accumulate aligned_reset)

lemma aligned_runCalls: "historiesAligned s \<Longrightarrow> historiesAligned (runCalls s calls)"
  unfolding runCalls_def by (induction calls arbitrary: s) (simp_all add: aligned_applyCall)


text \<open>
  Claim C4.  In every state that a run of \<open>accumulateFrames\<close> and \<open>reset\<close> calls reaches
  from the initial state of the composable, and again after one more \<open>accumulateFrames\<close> or
  \<open>reset\<close>, the seven history arrays have one common length and that length is at most the
  cap of 300 chunks.  A push onto full arrays (a non-empty batch when the length is 300)
  leaves each array as its old contents without the oldest chunk, followed by the new chunk;
  a push below the cap only appends.
\<close>

theorem history_cap_invariant:
  "let s = runCalls (useStreamAnalyzer options) calls;
       s' = accumulateFrames frames s
   in historiesAligned s \<and> historiesAligned s' \<and> historiesAligned (reset s)
      \<and> (fb_nFrames frames \<noteq> 0 \<and> length (chromaHistory s) = maxChunks \<longrightarrow>
            chromaHistory s' = tl (chromaHistory s) @ [fb_chroma frames]
          \<and> rmsHistory s' = tl (rmsHistory s) @ [fb_rmsEnergy frames]
          \<and> melHistory s' = tl (melHistory s) @ [fb_mel frames]
          \<and> timestampHistory s' = tl (timestampHistory s) @ [fb_timestamps frames]
          \<and> spectralCentroidHistory s' = tl (spectralCentroidHistory s) @ [fb_spectralCentroid frames]
          \<and> spectralFlatnessHistory s' = tl (spectralFlatnessHistory s) @ [fb_spectralFlatness frames]
          \<and> onsetStrengthHistory s' = tl (onsetStrengthHistory s) @ [fb_onsetStrength frames])
      \<and> (fb_nFrames frames \<noteq> 0 \<and> length (chromaHistory s) < maxChunks \<longrightarrow>
            chromaHistory s' = chromaHistory s @ [fb_chroma frames]
          \<and> rmsHistory s' = rmsHistory s @ [fb_rmsEnergy frames]
          \<and> melHistory s' = melHistory s @ [fb_mel frames]
          \<and> timestampHistory s' = timestampHistory s @ [fb_timestamps frames]
          \<and> spectralCentroidHistory s' = spectralCentroidHistory s @ [fb_spectralCentroid frames]
          \<and> spectralFlatnessHistory s' = spectralFlatnessHistory s @ [fb_spectralFlatness frames]
          \<and> onsetStrengthHistory s' = onsetStrengthHistory s @ [fb_onsetStrength frames])"
proof -
  define s where "s = runCalls (useStreamAnalyzer options) calls"
  have inv: "historiesAligned s"
    unfolding s_def by (rule aligned_runCalls) (rule aligned_initial)
  have inv': "historiesAligned (accumulateFrames frames s)"
    using inv by (rule aligned_accumulate)
  have at_cap: "chromaHistory (accumulateFrames frames s) = tl (chromaHistory s) @ [fb_chroma frames]
          \<and> rmsHistory (accumulateFrames frames s) = tl (rmsHistory s) @ [fb_rmsEnergy frames]
          \<and> melHistory (accumulateFrames frames s) = tl (melHistory s) @ [fb_mel frames]
          \<and> timestampHistory (accumulateFrames frames s) = tl (timestampHistory s) @ [fb_timestamps frames]
          \<and> spectralCentroidHistory (accumulateFrames frames s)
              = tl (spectralCentroidHistory s) @ [fb_spectralCentroid frames]
          \<and> spectralFlatnessHistory (accumulateFrames frames s)
              = tl (spectralFlatnessHistory s) @ [fb_spectralFlatness frames]
          \<and> onsetStrengthHistory (accumulateFrames frames s)
              = tl (onsetStrengthHistory s) @ [fb_onsetStrength frames]"
    if nz: "fb_nFrames frames \<noteq> 0" and cap: "length (chromaHistory s) = maxChunks"
  proof -
    from inv cap have ne: "chromaHistory s \<noteq> []" "rmsHistory s \<noteq> []" "melHistory s \<noteq> []"
      "timestampHistory s \<noteq> []" "spectralCentroidHistory s \<noteq> []"
      "spectralFlatnessHistory s \<noteq> []" "onsetStrengthHistory s \<noteq> []"
      by (auto simp: historiesAligned_def maxChunks_def)
    show ?thesis
      unfolding accumulate_at_cap [OF nz cap] using ne by (simp add: tl_snoc)
  qed
  have below: "chromaHistory (accumulateFrames frames s) = chromaHistory s @ [fb_chroma frames]
          \<and> rmsHistory (accumulateFrames frames s) = rmsHistory s @ [fb_rmsEnergy frames]
          \<and> melHistory (accumulateFrames frames s) = melHistory s @ [fb_mel frames]
          \<and> timestampHistory (accumulateFrames frames s) = timestampHistory s @ [fb_timestamps frames]
          \<and> spectralCentroidHistory (accumulateFrames frames s)
              = spectralCentroidHistory s @ [fb_spectralCentroid frames]
          \<and> spectralFlatnessHistory (accumulateFrames frames s)
              = spectralFlatnessHistory s @ [fb_spectralFlatness frames]
          \<and> onsetStrengthHistory (accumulateFrames frames s)
              = onsetStrengthHistory s @ [fb_onsetStrength frames]"
    if nz: "fb_nFrames frames \<noteq> 0" and lt: "length (chromaHistory s) < maxChunks"
    unfolding accumulate_below_cap [OF nz lt] by simp
  show ?thesis
    unfolding Let_def s_def [symmetric]
    using inv inv' aligned_reset [of s] at_cap below by blast
qed

lemma accumulate_length:
  assumes "historiesAligned s" "fb_nFrames frames \<noteq> 0"
  shows "length (chromaHistory (accumulateFrames frames s))
           = min maxChunks (Suc (length (chromaHistory s)))"
proof (cases "length (chromaHistory s) < maxChunks")
  case True
  then show ?thesis
    unfolding accumulate_below_cap [OF assms(2) True] by simp
next
  case False
  with assms(1) have cap: "length (chromaHistory s) = maxChunks" by (simp add: historiesAligned_def)
  then show ?thesis
    unfolding accumulate_at_cap [OF assms(2) cap] by simp
qed

lemma run_replicate_length:
  assumes "fb_nFrames frames \<noteq> 0"
  shows "historiesAligned s \<Longrightarrow>
         length (chromaHistory (runCalls s (replicate n (AccumulateFrames frames))))
           = min maxChunks (length (chromaHistory s) + n)"
proof (induction n arbitrary: s)
  case 0
  then show ?case by (simp add: runCalls_def historiesAligned_def)
next
  case (Suc n)
  have step: "runCalls s (replicate (Suc n) (AccumulateFrames frames))
                = runCalls (accumulateFrames frames s) (replicate n (AccumulateFrames frames))"
    by (simp add: runCalls_def)
  from Suc.prems have "historiesAligned (accumulateFrames frames s)" by (rule aligned_accumulate)
  from Suc.IH [OF this] accumulate_length [OF Suc.prems assms] show ?case
    unfolding step by simp
qed

lemma example_run_full:
  "length (chromaHistory (runCalls (useStreamAnalyzer exampleOptions)
      (replicate 300 (AccumulateFrames (exampleFrames 0))))) = maxChunks"
proof -
  have nz: "fb_nFrames (exampleFrames 0) \<noteq> 0" by (simp add: exampleFrames_def)
  have start: "length (chromaHistory (useStreamAnalyzer exampleOptions)) = 0"
    by (simp add: useStreamAnalyzer_def)
  have "min maxChunks (0 + 300) = maxChunks" by (simp add: maxChunks_def)
  with run_replicate_length [OF nz aligned_initial, of exampleOptions 300] start
  show ?thesis by (simp only:)
qed

text \<open>
  An instance: 300 one-frame batches fill the arrays, and the next batch evicts the oldest
  chunk; on the fresh composable the batch is only appended.
\<close>

theorem history_cap_invariant_witness:
  "fb_nFrames (exampleFrames 7) \<noteq> 0
   \<and> length (chromaHistory (runCalls (useStreamAnalyzer exampleOptions)
               (replicate 300 (AccumulateFrames (exampleFrames 0))))) = maxChunks
   \<and> chromaHistory (accumulateFrames (exampleFrames 7)
         (runCalls (useStreamAnalyzer exampleOptions) (replicate 300 (AccumulateFrames (exampleFrames 0)))))
       = tl (chromaHistory (runCalls (useStreamAnalyzer exampleOptions)
               (replicate 300 (AccumulateFrames (exampleFrames 0))))) @ [fb_chroma (exampleFrames 7)]
   \<and> length (chromaHistory (runCalls (useStreamAnalyzer exampleOptions) [])) < maxChunks
   \<and> chromaHistory (accumulateFrames (exampleFrames 7) (runCalls (useStreamAnalyzer exampleOptions) []))
       = chromaHistory (runCalls (useStreamAnalyzer exampleOptions) []) @ [fb_chroma (exampleFrames 7)]
   \<and> historiesAligned (accumulateFrames (exampleFrames 7)
         (runCalls (useStreamAnalyzer exampleOptions) (replicate 300 (AccumulateFrames (exampleFrames 0)))))"
proof -
  have nz: "fb_nFrames (exampleFrames 7) \<noteq> 0" by (simp add: exampleFrames_def)
  have empty: "length (chromaHistory (runCalls (useStreamAnalyzer exampleOptions) [])) < maxChunks"
    by (simp add: runCalls_def useStreamAnalyzer_def maxChunks_def)
  note full = history_cap_invariant
      [of exampleOptions "replicate 300 (AccumulateFrames (exampleFrames 0))" "exampleFrames 7",
       unfolded Let_def]
  note fresh = history_cap_invariant [of exampleOptions "[]" "exampleFrames 7", unfolded Let_def]
  from nz example_run_full full
  have a: "chromaHistory (accumulateFrames (exampleFrames 7)
         (runCalls (useStreamAnalyzer exampleOptions) (replicate 300 (AccumulateFrames (exampleFrames 0)))))
       = tl (chromaHistory (runCalls (useStreamAnalyzer exampleOptions)
               (replicate 300 (AccumulateFrames (exampleFrames 0))))) @ [fb_chroma (exampleFrames 7)]"
    by blast
  from nz empty fresh
  have b: "chromaHistory (accumulateFrames (exampleFrames 7) (runCalls (useStreamAnalyzer exampleOptions) []))
       = chromaHistory (runCalls (useStreamAnalyzer exampleOptions) []) @ [fb_chroma (exampleFrames 7)]"
    by blast
  from full have c: "historiesAligned (accumulateFrames (exampleFrames 7)
         (runCalls (useStreamAnalyzer exampleOptions) (replicate 300 (AccumulateFrames (exampleFrames 0)))))"
    by blast
  from nz example_run_full a empty b c show ?thesis by (intro conjI)
qed

lemma limitHistory_estimate: "estimate (limitHistory s) = estimate s"
proof (induction s rule: limitHistory.induct)
  case (1 s)
  show ?case
  proof (cases "length (chromaHistory s) > maxChunks")
    case True
    from "1" [OF True] show ?thesis
      by (subst limitHistory.simps) (simp add: True)
  next
    case False
    then show ?thesis by (subst limitHistory.simps) simp
  qed
qed

lemma accumulateFrames_estimate: "estimate (accumulateFrames frames s) = estimate s"
  by (simp add: accumulateFrames_def limitHistory_estimate)

text \<open>
  Claim C5.  When the \<open>updated\<close> flag of the progressive estimate is false, \<open>updateEstimate\<close>
  leaves the composable, and with it every field of the published estimate, unchanged.
  Conversely the published estimate differs after \<open>updateEstimate\<close> only if the flag was
  true, and \<open>accumulateFrames\<close>, the other step of a processing cycle, never touches it.
\<close>

theorem estimate_frame:
  "(\<not> pe_updated progressiveEstimate \<longrightarrow> updateEstimate progressiveEstimate s = s)
   \<and> (estimate (updateEstimate progressiveEstimate s) \<noteq> estimate s \<longrightarrow> pe_updated progressiveEstimate)
   \<and> estimate (accumulateFrames frames s) = estimate s"
proof (intro conjI impI)
  show "updateEstimate progressiveEstimate s = s" if "\<not> pe_updated progressiveEstimate"
    using that by (simp add: updateEstimate_def)
  show "pe_updated progressiveEstimate"
    if "estimate (updateEstimate progressiveEstimate s) \<noteq> estimate s"
    using that by (auto simp: updateEstimate_def split: if_splits)
  show "estimate (accumulateFrames frames s) = estimate s"
    by (rule accumulateFrames_estimate)
qed


text \<open>
  An instance: the same progressive estimate with the flag off (nothing changes) and on (the
  published estimate changes).
\<close>

theorem estimate_frame_witness:
  "\<not> pe_updated (exampleEstimate False)
   \<and> updateEstimate (exampleEstimate False) (useStreamAnalyzer exampleOptions)
       = useStreamAnalyzer exampleOptions
   \<and> estimate (updateEstimate (exampleEstimate True) (useStreamAnalyzer exampleOptions))
       \<noteq> estimate (useStreamAnalyzer exampleOptions)
   \<and> pe_updated (exampleEstimate True)"
proof -
  have off: "\<not> pe_updated (exampleEstimate False)" by (simp add: exampleEstimate_def)
  have changed: "estimate (updateEstimate (exampleEstimate True) (useStreamAnalyzer exampleOptions))
       \<noteq> estimate (useStreamAnalyzer exampleOptions)"
  proof -
    have "se_currentBar (estimate (updateEstimate (exampleEstimate True) (useStreamAnalyzer exampleOptions))) = 4"
      by (simp add: updateEstimate_def exampleEstimate_def Let_def)
    moreover have "se_currentBar (estimate (useStreamAnalyzer exampleOptions)) = - 1"
      by (simp add: useStreamAnalyzer_def emptyEstimate_def)
    ultimately show ?thesis by auto
  qed
  from off estimate_frame [of "exampleEstimate False" "useStreamAnalyzer exampleOptions"]
  have a: "updateEstimate (exampleEstimate False) (useStreamAnalyzer exampleOptions)
       = useStreamAnalyzer exampleOptions"
    by blast
  from changed estimate_frame [of "exampleEstimate True" "useStreamAnalyzer exampleOptions"]
  have b: "pe_updated (exampleEstimate True)" by blast
  from off a changed b show ?thesis by (intro conjI)
qed
section \<open>Properties of the binding layer\<close>

lemma runEvents_snoc: "runEvents st (evs @ [ev]) = moduleStep (runEvents st evs) ev"
  by (simp add: runEvents_def)

lemma reachable_module_state:
  "(initPromise (runEvents initialModuleState evs) = None
      \<longleftrightarrow> (\<forall>options. CallInit options \<notin> set evs))
   \<and> (initPromise (runEvents initialModuleState evs) = None
        \<or> initPromise (runEvents initialModuleState evs) = Some 0)
   \<and> loadsStarted (runEvents initialModuleState evs)
        = (if initPromise (runEvents initialModuleState evs) = None then 0 else 1)
   \<and> (module_var (runEvents initialModuleState evs) \<noteq> None
        \<longrightarrow> initPromise (runEvents initialModuleState evs) \<noteq> None)"
proof (induction evs rule: rev_induct)
  case Nil
  show ?case by (simp add: runEvents_def initialModuleState_def)
next
  case (snoc ev evs)
  define st where "st = runEvents initialModuleState evs"
  note ih = snoc.IH [folded st_def]
  show ?case
  proof (cases ev)
    case (CallInit options)
    then show ?thesis
      unfolding runEvents_snoc st_def [symmetric] using ih
      by (auto simp: init_def Let_def split: option.splits)
  next
    case (LoadSucceeds m)
    then show ?thesis
      unfolding runEvents_snoc st_def [symmetric] using ih
      by (auto simp: loadCompletes_def)
  next
    case LoadFails
    then show ?thesis
      unfolding runEvents_snoc st_def [symmetric] using ih by auto
  qed
qed

lemma module_assigned_iff:
  "module_var (runEvents initialModuleState evs) \<noteq> None \<longleftrightarrow>
     (\<exists>i<length evs. \<exists>j<i. (\<exists>m. evs ! i = LoadSucceeds m) \<and> (\<exists>options. evs ! j = CallInit options))"
proof (induction evs rule: rev_induct)
  case Nil
  show ?case by (simp add: runEvents_def initialModuleState_def)
next
  case (snoc ev evs)
  define st where "st = runEvents initialModuleState evs"
  note ih = snoc.IH [folded st_def]
  have started: "initPromise st \<noteq> None \<longleftrightarrow> (\<exists>j<length evs. \<exists>options. evs ! j = CallInit options)"
    using reachable_module_state [of evs, folded st_def] by (auto simp: in_set_conv_nth)
  have old: "(evs @ [ev]) ! k = evs ! k" if "k < length evs" for k
    using that by (simp add: nth_append)
  have split: "(\<exists>i<length (evs @ [ev]). \<exists>j<i. (\<exists>m. (evs @ [ev]) ! i = LoadSucceeds m)
                    \<and> (\<exists>options. (evs @ [ev]) ! j = CallInit options))
           \<longleftrightarrow> (\<exists>i<length evs. \<exists>j<i. (\<exists>m. evs ! i = LoadSucceeds m) \<and> (\<exists>options. evs ! j = CallInit options))
               \<or> ((\<exists>m. ev = LoadSucceeds m) \<and> (\<exists>j<length evs. \<exists>options. evs ! j = CallInit options))"
    (is "?L \<longleftrightarrow> ?A \<or> ?B")
  proof
    assume ?L
    then obtain i j where ij: "i < length (evs @ [ev])" "j < i"
      "\<exists>m. (evs @ [ev]) ! i = LoadSucceeds m" "\<exists>options. (evs @ [ev]) ! j = CallInit options"
      by blast
    show "?A \<or> ?B"
    proof (cases "i < length evs")
      case True
      with ij have "j < length evs" by simp
      with True ij have ?A by (auto simp: old)
      then show ?thesis ..
    next
      case False
      with ij(1) have i: "i = length evs" by simp
      with ij have ?B by (auto simp: old)
      then show ?thesis ..
    qed
  next
    assume "?A \<or> ?B"
    then show ?L
    proof
      assume ?A
      then obtain i j where ij: "i < length evs" "j < i" "\<exists>m. evs ! i = LoadSucceeds m"
        "\<exists>options. evs ! j = CallInit options" by blast
      then have "j < length evs" by simp
      with ij have "i < length (evs @ [ev]) \<and> j < i \<and> (\<exists>m. (evs @ [ev]) ! i = LoadSucceeds m)
              \<and> (\<exists>options. (evs @ [ev]) ! j = CallInit options)"
        by (simp add: old)
      then show ?L by blast
    next
      assume ?B
      then obtain j where j: "j < length evs" "\<exists>options. evs ! j = CallInit options"
        and ev: "\<exists>m. ev = LoadSucceeds m" by blast
      then have "length evs < length (evs @ [ev]) \<and> j < length evs
              \<and> (\<exists>m. (evs @ [ev]) ! length evs = LoadSucceeds m)
              \<and> (\<exists>options. (evs @ [ev]) ! j = CallInit options)"
        by (simp add: old)
      then show ?L by blast
    qed
  qed
  have step: "module_var (runEvents initialModuleState (evs @ [ev])) \<noteq> None
       \<longleftrightarrow> module_var st \<noteq> None \<or> ((\<exists>m. ev = LoadSucceeds m) \<and> initPromise st \<noteq> None)"
    unfolding runEvents_snoc st_def [symmetric]
    by (cases ev) (auto simp: init_def loadCompletes_def Let_def split: option.splits)
  show ?case unfolding step split ih started ..
qed

text \<open>
  Claim C7.  Take any interleaving of \<open>init\<close> calls, loader completions and loader
  failures from the initial module state.  The loader body is entered at most once.  Once
  some call of \<open>init\<close> has begun, \<open>initPromise\<close> is the promise of that first call, and every
  further call of \<open>init\<close> leaves the state as it is and starts no load: it returns at once
  when the module handle has been assigned, and otherwise hands back the promise of the
  first call.  Before any call of \<open>init\<close> the module is not initialized and a call starts the
  one load.  \<open>isInitialized\<close> only reads the state, and it is true exactly when the module
  handle has been assigned, that is, exactly when a loader completion has come after a call
  of \<open>init\<close>.
\<close>

theorem init_idempotent:
  "let st = runEvents initialModuleState evs
   in loadsStarted st \<le> 1
      \<and> (isInitialized st \<longleftrightarrow> module_var st \<noteq> None)
      \<and> (isInitialized st \<longleftrightarrow>
            (\<exists>i<length evs. \<exists>j<i. (\<exists>m. evs ! i = LoadSucceeds m)
                                      \<and> (\<exists>options. evs ! j = CallInit options)))
      \<and> ((\<exists>options. CallInit options \<in> set evs) \<longrightarrow>
            initPromise st = Some 0 \<and> loadsStarted st = 1
            \<and> (\<forall>options'. init options' st = (if isInitialized st then Fulfilled else Follows 0, st)))
      \<and> ((\<forall>options. CallInit options \<notin> set evs) \<longrightarrow>
            \<not> isInitialized st
            \<and> (\<forall>options'. init options' st
                  = (Follows 0, st\<lparr>initPromise := Some 0, loadsStarted := 1\<rparr>)))"
proof -
  define st where "st = runEvents initialModuleState evs"
  note inv = reachable_module_state [of evs, folded st_def]
  have a: "loadsStarted st \<le> 1" using inv by (auto split: if_splits)
  have b: "isInitialized st \<longleftrightarrow> module_var st \<noteq> None" by (simp add: isInitialized_def)
  have e: "isInitialized st \<longleftrightarrow>
            (\<exists>i<length evs. \<exists>j<i. (\<exists>m. evs ! i = LoadSucceeds m)
                                      \<and> (\<exists>options. evs ! j = CallInit options))"
    unfolding isInitialized_def st_def by (rule module_assigned_iff)
  have c: "initPromise st = Some 0 \<and> loadsStarted st = 1
            \<and> (\<forall>options'. init options' st = (if isInitialized st then Fulfilled else Follows 0, st))"
    if "\<exists>options. CallInit options \<in> set evs"
  proof -
    from that inv have p: "initPromise st = Some 0" by auto
    with inv have l: "loadsStarted st = 1" by simp
    from p have "init options' st = (if isInitialized st then Fulfilled else Follows 0, st)" for options'
      by (simp add: init_def isInitialized_def)
    with p l show ?thesis by simp
  qed
  have d: "\<not> isInitialized st
            \<and> (\<forall>options'. init options' st
                  = (Follows 0, st\<lparr>initPromise := Some 0, loadsStarted := 1\<rparr>))"
    if "\<forall>options. CallInit options \<notin> set evs"
  proof -
    from that inv have p: "initPromise st = None" by auto
    with inv have l: "loadsStarted st = 0" and m: "module_var st = None" by auto
    from p l m show ?thesis by (simp add: init_def isInitialized_def Let_def)
  qed
  show ?thesis
    unfolding Let_def st_def [symmetric] using a b c d e by blast
qed

text \<open>
  Instances: a second call after the load has completed, a second call while the load is
  pending, and the very first call.
\<close>

theorem init_idempotent_witness:
  "(\<exists>options. CallInit options \<in> set [CallInit Undefined, LoadSucceeds exampleModule])
   \<and> init Undefined (runEvents initialModuleState [CallInit Undefined, LoadSucceeds exampleModule])
       = (Fulfilled, runEvents initialModuleState [CallInit Undefined, LoadSucceeds exampleModule])
   \<and> isInitialized (runEvents initialModuleState [CallInit Undefined, LoadSucceeds exampleModule])
   \<and> (\<exists>options. CallInit options \<in> set [CallInit Undefined])
   \<and> init Undefined (runEvents initialModuleState [CallInit Undefined])
       = (Follows 0, runEvents initialModuleState [CallInit Undefined])
   \<and> \<not> isInitialized (runEvents initialModuleState [CallInit Undefined])
   \<and> (\<forall>options. CallInit options \<notin> set [])
   \<and> init Undefined (runEvents initialModuleState [])
       = (Follows 0, (runEvents initialModuleState [])\<lparr>initPromise := Some 0, loadsStarted := 1\<rparr>)"
proof -
  have h1: "\<exists>options. CallInit options \<in> set [CallInit Undefined, LoadSucceeds exampleModule]"
    by auto
  have i1: "isInitialized (runEvents initialModuleState [CallInit Undefined, LoadSucceeds exampleModule])"
    by (simp add: runEvents_def initialModuleState_def init_def loadCompletes_def isInitialized_def)
  have h2: "\<exists>options. CallInit options \<in> set [CallInit Undefined]" by auto
  have i2: "\<not> isInitialized (runEvents initialModuleState [CallInit Undefined])"
    by (simp add: runEvents_def initialModuleState_def init_def isInitialized_def)
  have h3: "\<forall>options. CallInit options \<notin> set []" by simp
  from init_idempotent [of "[CallInit Undefined, LoadSucceeds exampleModule]", unfolded Let_def] h1 i1
  have a: "init Undefined (runEvents initialModuleState [CallInit Undefined, LoadSucceeds exampleModule])
       = (Fulfilled, runEvents initialModuleState [CallInit Undefined, LoadSucceeds exampleModule])"
    by (metis (full_types))
  from init_idempotent [of "[CallInit Undefined]", unfolded Let_def] h2 i2
  have b: "init Undefined (runEvents initialModuleState [CallInit Undefined])
       = (Follows 0, runEvents initialModuleState [CallInit Undefined])"
    by (metis (full_types))
  from init_idempotent [of "[]", unfolded Let_def] h3
  have c: "init Undefined (runEvents initialModuleState [])
       = (Follows 0, (runEvents initialModuleState [])\<lparr>initPromise := Some 0, loadsStarted := 1\<rparr>)"
    by blast
  from h1 a i1 h2 b i2 h3 c show ?thesis by (intro conjI)
qed

text \<open>
  Claim C9.  While the module handle is unassigned (before \<open>init\<close> was called, or while its
  load is still pending or has failed), each of the 36 exported functions that delegate to
  the WASM module, and the \<open>StreamAnalyzer\<close> constructor, throws an \<open>Error\<close> with the
  message \<open>Module not initialized. Call init() first.\<close> and leaves \<open>module\<close> and
  \<open>initPromise\<close> as they were.
\<close>

theorem uninitialized_calls_throw:
  assumes "module_var st = None"
  shows "version st = (Inl (Error ''Module not initialized. Call init() first.''), st)
     \<and> detectBpm samples sampleRate st = (Inl (Error ''Module not initialized. Call init() first.''), st)
     \<and> detectKey samples sampleRate st = (Inl (Error ''Module not initialized. Call init() first.''), st)
     \<and> detectOnsets samples sampleRate st = (Inl (Error ''Module not initialized. Call init() first.''), st)
     \<and> detectBeats samples sampleRate st = (Inl (Error ''Module not initialized. Call init() first.''), st)
     \<and> analyze samples sampleRate st = (Inl (Error ''Module not initialized. Call init() first.''), st)
     \<and> analyzeWithProgress samples sampleRate onProgress st = (Inl (Error ''Module not initialized. Call init() first.''), st)
     \<and> hpss samples sampleRate kernelHarmonic kernelPercussive st = (Inl (Error ''Module not initialized. Call init() first.''), st)
     \<and> harmonic samples sampleRate st = (Inl (Error ''Module not initialized. Call init() first.''), st)
     \<and> percussive samples sampleRate st = (Inl (Error ''Module not initialized. Call init() first.''), st)
     \<and> timeStretch samples sampleRate rate st = (Inl (Error ''Module not initialized. Call init() first.''), st)
     \<and> pitchShift samples sampleRate semitones st = (Inl (Error ''Module not initialized. Call init() first.''), st)
     \<and> normalize_audio samples sampleRate targetDb st = (Inl (Error ''Module not initialized. Call init() first.''), st)
     \<and> trim samples sampleRate thresholdDb st = (Inl (Error ''Module not initialized. Call init() first.''), st)
     \<and> stft samples sampleRate nFft hopLength st = (Inl (Error ''Module not initialized. Call init() first.''), st)
     \<and> stftDb samples sampleRate nFft hopLength st = (Inl (Error ''Module not initialized. Call init() first.''), st)
     \<and> melSpectrogram samples sampleRate nFft hopLength nMels st = (Inl (Error ''Module not initialized. Call init() first.''), st)
     \<and> mfcc samples sampleRate nFft hopLength nMels nMfcc st = (Inl (Error ''Module not initialized. Call init() first.''), st)
     \<and> chroma samples sampleRate nFft hopLength st = (Inl (Error ''Module not initialized. Call init() first.''), st)
     \<and> spectralCentroid samples sampleRate nFft hopLength st = (Inl (Error ''Module not initialized. Call init() first.''), st)
     \<and> spectralBandwidth samples sampleRate nFft hopLength st = (Inl (Error ''Module not initialized. Call init() first.''), st)
     \<and> spectralRolloff samples sampleRate nFft hopLength rollPercent st = (Inl (Error ''Module not initialized. Call init() first.''), st)
     \<and> spectralFlatness samples sampleRate nFft hopLength st = (Inl (Error ''Module not initialized. Call init() first.''), st)
     \<and> zeroCrossingRate samples sampleRate frameLength hopLength st = (Inl (Error ''Module not initialized. Call init() first.''), st)
     \<and> rmsEnergy samples sampleRate frameLength hopLength st = (Inl (Error ''Module not initialized. Call init() first.''), st)
     \<and> pitchYin samples sampleRate frameLength hopLength fmin fmax threshold st = (Inl (Error ''Module not initialized. Call init() first.''), st)
     \<and> pitchPyin samples sampleRate frameLength hopLength fmin fmax threshold st = (Inl (Error ''Module not initialized. Call init() first.''), st)
     \<and> hzToMel hz st = (Inl (Error ''Module not initialized. Call init() first.''), st)
     \<and> melToHz mel st = (Inl (Error ''Module not initialized. Call init() first.''), st)
     \<and> hzToMidi hz st = (Inl (Error ''Module not initialized. Call init() first.''), st)
     \<and> midiToHz midi st = (Inl (Error ''Module not initialized. Call init() first.''), st)
     \<and> hzToNote hz st = (Inl (Error ''Module not initialized. Call init() first.''), st)
     \<and> noteToHz note st = (Inl (Error ''Module not initialized. Call init() first.''), st)
     \<and> framesToTime frames sr hopLength st = (Inl (Error ''Module not initialized. Call init() first.''), st)
     \<and> timeToFrames time sr hopLength st = (Inl (Error ''Module not initialized. Call init() first.''), st)
     \<and> resample samples srcSr targetSr st = (Inl (Error ''Module not initialized. Call init() first.''), st)
     \<and> StreamAnalyzer_constructor config st = (Inl (Error ''Module not initialized. Call init() first.''), st)"
  using assms
  by (simp add: version_def detectBpm_def detectKey_def detectOnsets_def detectBeats_def analyze_def
      analyzeWithProgress_def hpss_def harmonic_def percussive_def timeStretch_def
      pitchShift_def normalize_audio_def trim_def stft_def stftDb_def melSpectrogram_def
      mfcc_def chroma_def spectralCentroid_def spectralBandwidth_def spectralRolloff_def
      spectralFlatness_def zeroCrossingRate_def rmsEnergy_def pitchYin_def pitchPyin_def
      hzToMel_def melToHz_def hzToMidi_def midiToHz_def hzToNote_def noteToHz_def
      framesToTime_def timeToFrames_def resample_def StreamAnalyzer_constructor_def)

text \<open>
  Instances: the fresh module state, and the state right after a first \<open>init\<close> call whose
  load is pending.
\<close>

theorem uninitialized_calls_throw_witness:
  "module_var initialModuleState = None
   \<and> version initialModuleState
       = (Inl (Error ''Module not initialized. Call init() first.''), initialModuleState)
   \<and> detectBpm (Ref 0) (Num 44100) initialModuleState
       = (Inl (Error ''Module not initialized. Call init() first.''), initialModuleState)
   \<and> StreamAnalyzer_constructor sampleRateOnly initialModuleState
       = (Inl (Error ''Module not initialized. Call init() first.''), initialModuleState)
   \<and> module_var (snd (init Undefined initialModuleState)) = None
   \<and> analyze (Ref 0) (Num 44100) (snd (init Undefined initialModuleState))
       = (Inl (Error ''Module not initialized. Call init() first.''),
          snd (init Undefined initialModuleState))"
proof -
  have h: "module_var initialModuleState = None" by (simp add: initialModuleState_def)
  have h': "module_var (snd (init Undefined initialModuleState)) = None"
    by (simp add: initialModuleState_def init_def)
  note fresh = uninitialized_calls_throw
      [OF h, where samples = "Ref 0" and sampleRate = "Num 44100" and config = sampleRateOnly]
  note pending = uninitialized_calls_throw [OF h', where samples = "Ref 0" and sampleRate = "Num 44100"]
  from fresh have a: "version initialModuleState
       = (Inl (Error ''Module not initialized. Call init() first.''), initialModuleState)"
    by simp
  from fresh have b: "detectBpm (Ref 0) (Num 44100) initialModuleState
       = (Inl (Error ''Module not initialized. Call init() first.''), initialModuleState)"
    by simp
  from fresh have c: "StreamAnalyzer_constructor sampleRateOnly initialModuleState
       = (Inl (Error ''Module not initialized. Call init() first.''), initialModuleState)"
    by simp
  from pending have d: "analyze (Ref 0) (Num 44100) (snd (init Undefined initialModuleState))
       = (Inl (Error ''Module not initialized. Call init() first.''),
          snd (init Undefined initialModuleState))"
    by simp
  from h a b c h' d show ?thesis by (intro conjI)
qed

lemma constructor_resolves:
  "module_var st = Some m \<Longrightarrow>
   StreamAnalyzer_constructor config st
     = (bindE (constructNative m (documentedConfig config)) (\<lambda>native. Inr \<lparr>analyzer = native\<rparr>), st)"
  by (simp add: StreamAnalyzer_constructor_def constructNative_def documentedConfig_def
      orDefault_def)

text \<open>
  Claim C8.  With the module initialized, the constructor calls the native constructor on
  the documented configuration: \<open>sampleRate\<close> as given and every omitted optional field at
  its documented default (\<open>nFft=2048\<close>, \<open>hopLength=512\<close>, \<open>nMels=128\<close>, \<open>computeMel=true\<close>,
  \<open>computeChroma=true\<close>, \<open>computeOnset=true\<close>, \<open>emitEveryNFrames=1\<close>).  The outcome depends on
  the configuration only through these resolved values, and the object built holds the
  native analyzer and nothing of the configuration, so nothing can read it again later.
\<close>

theorem constructor_defaults:
  assumes "module_var st = Some m"
  shows "StreamAnalyzer_constructor config st
           = (bindE (constructNative m (documentedConfig config))
                (\<lambda>native. Inr \<lparr>analyzer = native\<rparr>), st)
         \<and> (documentedConfig config' = documentedConfig config
              \<longrightarrow> StreamAnalyzer_constructor config' st = StreamAnalyzer_constructor config st)
         \<and> StreamAnalyzer_constructor
              \<lparr>cfg_sampleRate = sr, cfg_nFft = None, cfg_hopLength = None, cfg_nMels = None,
               cfg_computeMel = None, cfg_computeChroma = None, cfg_computeOnset = None,
               cfg_emitEveryNFrames = None\<rparr> st
             = (bindE (newStreamAnalyzer m sr 2048 512 128 True True True 1)
                  (\<lambda>native. Inr \<lparr>analyzer = native\<rparr>), st)"
proof (intro conjI impI)
  show "StreamAnalyzer_constructor config st
           = (bindE (constructNative m (documentedConfig config))
                (\<lambda>native. Inr \<lparr>analyzer = native\<rparr>), st)"
    using assms by (rule constructor_resolves)
  show "StreamAnalyzer_constructor config' st = StreamAnalyzer_constructor config st"
    if "documentedConfig config' = documentedConfig config"
    using that by (simp add: constructor_resolves [OF assms])
  show "StreamAnalyzer_constructor
              \<lparr>cfg_sampleRate = sr, cfg_nFft = None, cfg_hopLength = None, cfg_nMels = None,
               cfg_computeMel = None, cfg_computeChroma = None, cfg_computeOnset = None,
               cfg_emitEveryNFrames = None\<rparr> st
             = (bindE (newStreamAnalyzer m sr 2048 512 128 True True True 1)
                  (\<lambda>native. Inr \<lparr>analyzer = native\<rparr>), st)"
    using assms by (simp add: StreamAnalyzer_constructor_def orDefault_def)
qed

text \<open>An instance: only \<open>sampleRate\<close> is given, after \<open>init\<close> has completed.\<close>

theorem constructor_defaults_witness:
  "module_var (runEvents initialModuleState [CallInit Undefined, LoadSucceeds exampleModule])
     = Some exampleModule
   \<and> StreamAnalyzer_constructor sampleRateOnly
        (runEvents initialModuleState [CallInit Undefined, LoadSucceeds exampleModule])
       = (Inr \<lparr>analyzer = NativeAnalyzer 48000 2048 512 128 True True True 1\<rparr>,
          runEvents initialModuleState [CallInit Undefined, LoadSucceeds exampleModule])"
proof -
  have h: "module_var (runEvents initialModuleState [CallInit Undefined, LoadSucceeds exampleModule])
     = Some exampleModule"
    by (simp add: runEvents_def initialModuleState_def init_def loadCompletes_def)
  from constructor_defaults [OF h, of sampleRateOnly]
  have "StreamAnalyzer_constructor sampleRateOnly
        (runEvents initialModuleState [CallInit Undefined, LoadSucceeds exampleModule])
       = (bindE (constructNative exampleModule (documentedConfig sampleRateOnly))
                (\<lambda>native. Inr \<lparr>analyzer = native\<rparr>),
          runEvents initialModuleState [CallInit Undefined, LoadSucceeds exampleModule])"
    by (rule conjunct1)
  moreover have "bindE (constructNative exampleModule (documentedConfig sampleRateOnly))
                (\<lambda>native. Inr \<lparr>analyzer = native\<rparr>)
       = Inr \<lparr>analyzer = NativeAnalyzer 48000 2048 512 128 True True True 1\<rparr>"
    by (simp add: constructNative_def documentedConfig_def sampleRateOnly_def exampleModule_def
        specNativeConstructor_def bindE_def)
  ultimately have "StreamAnalyzer_constructor sampleRateOnly
        (runEvents initialModuleState [CallInit Undefined, LoadSucceeds exampleModule])
       = (Inr \<lparr>analyzer = NativeAnalyzer 48000 2048 512 128 True True True 1\<rparr>,
          runEvents initialModuleState [CallInit Undefined, LoadSucceeds exampleModule])"
    by simp
  with h show ?thesis by (rule conjI)
qed

text \<open>
  Claim C6.  The constructor of the binding layer validates nothing itself; it hands the
  resolved values to the native constructor.  With the native constructor as the
  specification describes it, construction throws, and returns no analyzer, for every
  configuration whose resolved values have \<open>sampleRate \<le> 0\<close>, \<open>hopLength \<le> 0\<close> or
  \<open>hopLength \<ge> nFft\<close>; it also throws while the module is not initialized.
\<close>

theorem invalid_config_rejected:
  assumes bad: "cfg_sampleRate config \<le> 0
                \<or> orDefault (cfg_hopLength config) 512 \<le> 0
                \<or> orDefault (cfg_hopLength config) 512 \<ge> orDefault (cfg_nFft config) 2048"
      and native: "module_var st = None
                   \<or> (\<exists>m. module_var st = Some m \<and> newStreamAnalyzer m = specNativeConstructor)"
  shows "\<exists>e. StreamAnalyzer_constructor config st = (Inl e, st)"
proof -
  from native show ?thesis
  proof
    assume "module_var st = None"
    then show ?thesis by (simp add: StreamAnalyzer_constructor_def)
  next
    assume "\<exists>m. module_var st = Some m \<and> newStreamAnalyzer m = specNativeConstructor"
    then obtain m where m: "module_var st = Some m" "newStreamAnalyzer m = specNativeConstructor"
      by blast
    from bad have "\<exists>e. specNativeConstructor (cfg_sampleRate config)
                    (orDefault (cfg_nFft config) 2048)
                    (orDefault (cfg_hopLength config) 512)
                    (orDefault (cfg_nMels config) 128)
                    (orDefault (cfg_computeMel config) True)
                    (orDefault (cfg_computeChroma config) True)
                    (orDefault (cfg_computeOnset config) True)
                    (orDefault (cfg_emitEveryNFrames config) 1) = Inl e"
      by (auto simp: specNativeConstructor_def)
    then show ?thesis
      using m by (auto simp: StreamAnalyzer_constructor_def bindE_def)
  qed
qed

text \<open>
  An instance: \<open>hopLength = 4096\<close> with \<open>nFft\<close> omitted, so that the default 2048 applies.
\<close>

theorem invalid_config_rejected_witness:
  "(cfg_sampleRate hopTooLarge \<le> 0
      \<or> orDefault (cfg_hopLength hopTooLarge) 512 \<le> 0
      \<or> orDefault (cfg_hopLength hopTooLarge) 512 \<ge> orDefault (cfg_nFft hopTooLarge) 2048)
   \<and> (module_var \<lparr>module_var = Some exampleModule, initPromise = Some 0, loadsStarted = 1\<rparr> = None
        \<or> (\<exists>m. module_var \<lparr>module_var = Some exampleModule, initPromise = Some 0, loadsStarted = 1\<rparr>
                   = Some m
               \<and> newStreamAnalyzer m = specNativeConstructor))
   \<and> (\<exists>e. StreamAnalyzer_constructor hopTooLarge
              \<lparr>module_var = Some exampleModule, initPromise = Some 0, loadsStarted = 1\<rparr>
            = (Inl e, \<lparr>module_var = Some exampleModule, initPromise = Some 0, loadsStarted = 1\<rparr>))"
proof -
  have bad: "cfg_sampleRate hopTooLarge \<le> 0
      \<or> orDefault (cfg_hopLength hopTooLarge) 512 \<le> 0
      \<or> orDefault (cfg_hopLength hopTooLarge) 512 \<ge> orDefault (cfg_nFft hopTooLarge) 2048"
    by (simp add: hopTooLarge_def orDefault_def)
  have native: "module_var \<lparr>module_var = Some exampleModule, initPromise = Some 0, loadsStarted = 1\<rparr> = None
        \<or> (\<exists>m. module_var \<lparr>module_var = Some exampleModule, initPromise = Some 0, loadsStarted = 1\<rparr>
                   = Some m
               \<and> newStreamAnalyzer m = specNativeConstructor)"
    by (simp add: exampleModule_def)
  from bad native invalid_config_rejected [OF bad native] show ?thesis by (intro conjI)
qed

end
